theory Spec2Isabelle
  imports Main "HOL-Library.AList" "HOL-Library.Sublist" "HOL-Library.Word"
begin

section \<open>Values, rows and errors\<close>

text \<open>
  A value held in an \<^verbatim>\<open>interface{}\<close> of a decoded document. \<open>VMap\<close> is a
  \<^verbatim>\<open>map[string]interface{}\<close>, \<open>VRow\<close> an \<^verbatim>\<open>optimus.Row\<close> and \<open>VArr\<close> a
  \<^verbatim>\<open>[]interface{}\<close>; the three stand for allocated (non-nil) maps and slices, which is
  what decoding a document yields. A Go map is written as an association list: the
  order of the list is the order in which a \<^verbatim>\<open>range\<close> over the map visits the keys,
  which Go leaves open. An assignment \<^verbatim>\<open>m[k] = v\<close> is \<open>AList.update k v m\<close> and a
  lookup \<^verbatim>\<open>m[k]\<close> is \<open>map_of m k\<close>; two rows are the same Go map when their
  \<open>map_of\<close> agree.
\<close>

datatype val =
    VNil
  | VBool bool
  | VInt int
  | VStr string
  | VMap "(string \<times> val) list"
  | VRow "(string \<times> val) list"
  | VArr "val list"

type_synonym row = "(string \<times> val) list"

text \<open>
  \<open>Panic\<close> is a run-time panic of the Go program, \<open>Fatal\<close> an exit through
  \<^verbatim>\<open>log.Fatal\<close> (with the fixed text of its message). An \<^verbatim>\<open>error\<close> value that a Go
  function returns is a \<open>string option\<close>, \<open>None\<close> for \<^verbatim>\<open>nil\<close>.
\<close>

datatype error = Panic string | Fatal string

text \<open>
  \<^verbatim>\<open>json.Marshal\<close> on a \<^verbatim>\<open>[]interface{}\<close> belongs to a library: its result, the
  bytes and the error, is a parameter of the model.
\<close>

type_synonym marshal = "val list \<Rightarrow> string \<times> string option"

section \<open>config.go\<close>

record Field =
  Destination :: string
  Source :: string
  PII :: bool

record Meta =
  Database :: string
  DataDateColumn :: string
  UseProjectionOptimization :: bool

record Table =
  Destination :: string
  Source :: string
  Fields :: "Field list"
  Meta :: Meta

text \<open>\<^verbatim>\<open>Table.FieldMap\<close>: the destinations of every source, in the order of the fields.\<close>

fun FieldMap_loop :: "Field list \<Rightarrow> (string \<times> string list) list \<Rightarrow> (string \<times> string list) list" where
  "FieldMap_loop [] mappings = mappings"
| "FieldMap_loop (field # rest) mappings =
     (if Field.Destination field \<noteq> ''''
      then (let list = (case map_of mappings (Field.Source field) of None \<Rightarrow> [] | Some l \<Rightarrow> l)
            in FieldMap_loop rest
                 (AList.update (Field.Source field) (list @ [Field.Destination field]) mappings))
      else FieldMap_loop rest mappings)"

definition FieldMap :: "Table \<Rightarrow> (string \<times> string list) list" where
  "FieldMap t = FieldMap_loop (Fields t) []"

definition GetPopulateDateFn :: "string \<Rightarrow> string \<Rightarrow> row \<Rightarrow> row \<times> string option" where
  "GetPopulateDateFn dataDateColumn timestamp r =
     (AList.update dataDateColumn (VStr timestamp) r, None)"

text \<open>
  \<^verbatim>\<open>IsZeroOfUnderlyingType\<close>: \<^verbatim>\<open>reflect.TypeOf\<close> of a nil interface is the nil type, and
  \<^verbatim>\<open>reflect.Zero\<close> panics on it. \<^verbatim>\<open>reflect.DeepEqual\<close> tells an allocated map or slice
  from the nil one that is the zero value of its type.
\<close>

fun IsZeroOfUnderlyingType :: "val \<Rightarrow> error + bool" where
  "IsZeroOfUnderlyingType VNil = Inl (Panic ''reflect: Zero(nil)'')"
| "IsZeroOfUnderlyingType (VBool b) = Inr (b = False)"
| "IsZeroOfUnderlyingType (VInt n) = Inr (n = 0)"
| "IsZeroOfUnderlyingType (VStr s) = Inr (s = '''')"
| "IsZeroOfUnderlyingType (VMap m) = Inr False"
| "IsZeroOfUnderlyingType (VRow m) = Inr False"
| "IsZeroOfUnderlyingType (VArr xs) = Inr False"

fun GetExistentialTransformerFn_loop :: "Field list \<Rightarrow> row \<Rightarrow> error + row" where
  "GetExistentialTransformerFn_loop [] r = Inr r"
| "GetExistentialTransformerFn_loop (field # rest) r =
     (if PII field
      then (case map_of r (Field.Source field) of
              None \<Rightarrow>
                GetExistentialTransformerFn_loop rest (AList.update (Field.Source field) (VBool False) r)
            | Some v \<Rightarrow>
                (case IsZeroOfUnderlyingType v of
                   Inl e \<Rightarrow> Inl e
                 | Inr z \<Rightarrow>
                     GetExistentialTransformerFn_loop rest
                       (AList.update (Field.Source field) (VBool (\<not> z)) r)))
      else GetExistentialTransformerFn_loop rest r)"

definition GetExistentialTransformerFn :: "Table \<Rightarrow> row \<Rightarrow> error + row \<times> string option" where
  "GetExistentialTransformerFn t r =
     (case GetExistentialTransformerFn_loop (Fields t) r of
        Inl e \<Rightarrow> Inl e
      | Inr r' \<Rightarrow> Inr (r', None))"

text \<open>
  \<^verbatim>\<open>flatten\<close>: the loop over the entries of \<^verbatim>\<open>inputJSON\<close>, the type switch on one value
  (\<open>flatten_value\<close>) and the inner loop over the elements of an array
  (\<open>flatten_subvalues\<close>). The row \<^verbatim>\<open>*flattened\<close> is threaded through. The error of
  \<^verbatim>\<open>json.Marshal\<close> is dropped by the source (\<^verbatim>\<open>jsonVal, _ :=\<close>).
\<close>

fun flatten :: "marshal \<Rightarrow> (string \<times> val) list \<Rightarrow> string \<Rightarrow> row \<Rightarrow> row"
and flatten_value :: "marshal \<Rightarrow> val \<Rightarrow> string \<Rightarrow> row \<Rightarrow> row"
and flatten_subvalues :: "marshal \<Rightarrow> val list \<Rightarrow> string \<Rightarrow> row \<Rightarrow> row"
where
  "flatten js [] lkey flattened = flattened"
| "flatten js ((rkey, v) # rest) lkey flattened =
     flatten js rest lkey (flatten_value js v (lkey @ rkey) flattened)"
| "flatten_value js (VMap v) key flattened = flatten js v (key @ ''.'') flattened"
| "flatten_value js (VRow v) key flattened = flatten js v (key @ ''.'') flattened"
| "flatten_value js (VArr v) key flattened =
     flatten_subvalues js v key (AList.update key (VStr (fst (js v))) flattened)"
| "flatten_value js v key flattened = AList.update key v flattened"
| "flatten_subvalues js [] key flattened = flattened"
| "flatten_subvalues js (VMap sv # rest) key flattened =
     flatten_subvalues js rest key (flatten js sv (key @ ''.'') flattened)"
| "flatten_subvalues js (VRow sv # rest) key flattened =
     flatten_subvalues js rest key (flatten js sv (key @ ''.'') flattened)"
| "flatten_subvalues js (sv # rest) key flattened = flatten_subvalues js rest key flattened"

definition Flattener :: "marshal \<Rightarrow> row \<Rightarrow> row \<times> string option" where
  "Flattener js r = (flatten js r '''' [], None)"

text \<open>What the \<^verbatim>\<open>default\<close> case of the type switch in \<^verbatim>\<open>flatten\<close> takes: no mapping, no array.\<close>

fun scalar :: "val \<Rightarrow> bool" where
  "scalar (VMap m) = False"
| "scalar (VRow m) = False"
| "scalar (VArr xs) = False"
| "scalar v = True"

definition flat :: "row \<Rightarrow> bool" where
  "flat r = (\<forall>p\<in>set r. scalar (snd p))"

text \<open>What the inner type switch of \<^verbatim>\<open>flatten\<close> descends into: an element that is a mapping.\<close>

fun is_mapping :: "val \<Rightarrow> bool" where
  "is_mapping (VMap m) = True"
| "is_mapping (VRow m) = True"
| "is_mapping v = False"

section \<open>main.go\<close>

text \<open>\<^verbatim>\<open>strconv.Itoa\<close> on the loop index, and the verb \<^verbatim>\<open>%02d\<close> of \<^verbatim>\<open>fmt.Sprintf\<close>.\<close>

fun Itoa :: "nat \<Rightarrow> string" where
  "Itoa n = (if n < 10 then [''0123456789'' ! n]
             else Itoa (n div 10) @ [''0123456789'' ! (n mod 10)])"

declare Itoa.simps [simp del]

definition Sprintf_02d :: "nat \<Rightarrow> string" where
  "Sprintf_02d n = (if n < 10 then ''0'' @ Itoa n else Itoa n)"

text \<open>
  \<^verbatim>\<open>time.Parse(time.RFC3339, timestamp)\<close> belongs to the standard library: its result is
  a parameter, \<open>Inl\<close> the error. The fields are the ones \<^verbatim>\<open>formatFilename\<close> reads.
  The source drops the error (\<^verbatim>\<open>t, _ :=\<close>); \<^verbatim>\<open>t\<close> is then the zero \<^verbatim>\<open>Time\<close>,
  January 1 of year 1.
\<close>

record Time =
  Year :: nat
  Month :: nat
  Day :: nat

type_synonym time_Parse = "string \<Rightarrow> string + Time"

definition formatFilename :: "time_Parse \<Rightarrow> string \<Rightarrow> string \<Rightarrow> string \<Rightarrow> string \<Rightarrow> string" where
  "formatFilename parse timestamp collectionName fileIndex extension =
     (let fileIndex = (if fileIndex \<noteq> '''' then ''_'' @ fileIndex else fileIndex);
          t = (case parse timestamp of
                 Inl e \<Rightarrow> \<lparr>Year = 1, Month = 1, Day = 1\<rparr>
               | Inr t \<Rightarrow> t);
          filePath = ''mongo/'' @ collectionName
                     @ ''/_data_timestamp_year='' @ Sprintf_02d (Year t)
                     @ ''/_data_timestamp_month='' @ Sprintf_02d (Month t)
                     @ ''/_data_timestamp_day='' @ Sprintf_02d (Day t) @ ''/'';
          fileName = ''mongo_'' @ collectionName @ ''_'' @ timestamp @ fileIndex @ extension
      in filePath @ fileName)"

text \<open>
  Modelled from the spec: \<^verbatim>\<open>Fieldmap\<close> of the optimus transformer is not under src/.
  Section 4.1 of the spec: a new row containing only destination keys; for each
  source with its destinations, the value at the source path is copied into every
  destination path. A lookup of an absent key in a Go map is \<^verbatim>\<open>nil\<close>.
\<close>

fun Fieldmap_vals :: "row \<Rightarrow> string \<Rightarrow> string list \<Rightarrow> row \<Rightarrow> row" where
  "Fieldmap_vals row key [] newRow = newRow"
| "Fieldmap_vals row key (val # vals) newRow =
     Fieldmap_vals row key vals
       (AList.update val (case map_of row key of None \<Rightarrow> VNil | Some v \<Rightarrow> v) newRow)"

fun Fieldmap_loop :: "(string \<times> string list) list \<Rightarrow> row \<Rightarrow> row \<Rightarrow> row" where
  "Fieldmap_loop [] row newRow = newRow"
| "Fieldmap_loop ((key, vals) # rest) row newRow =
     Fieldmap_loop rest row (Fieldmap_vals row key vals newRow)"

definition Fieldmap :: "(string \<times> string list) list \<Rightarrow> row \<Rightarrow> row \<times> string option" where
  "Fieldmap mappings row = (Fieldmap_loop mappings row [], None)"

text \<open>
  One \<^verbatim>\<open>Map\<close> stage of the transformer, seen from one row: a stage runs on the row
  the stage before it returned, and an error of a stage ends the table with that error.
\<close>

definition Map_stage :: "(error + row \<times> string option) \<Rightarrow> (row \<Rightarrow> error + row \<times> string option)
    \<Rightarrow> error + row \<times> string option" where
  "Map_stage x f = (case x of
                      Inl e \<Rightarrow> Inl e
                    | Inr (r, Some err) \<Rightarrow> Inr (r, Some err)
                    | Inr (r, None) \<Rightarrow> f r)"

text \<open>The first four stages of \<^verbatim>\<open>exportData\<close> on one row of the source.\<close>

definition exportData_stages :: "marshal \<Rightarrow> Table \<Rightarrow> string \<Rightarrow> row \<Rightarrow> error + row \<times> string option" where
  "exportData_stages js table timestamp d =
     Map_stage
       (Map_stage
          (Map_stage (Inr (Flattener js d))
             (GetExistentialTransformerFn table))
          (\<lambda>r. Inr (Fieldmap (FieldMap table) r)))
       (\<lambda>r. Inr (GetPopulateDateFn (DataDateColumn (Meta table)) timestamp r))"

text \<open>
  The rows of the source pass the stages one by one; the fifth stage adds one to
  \<^verbatim>\<open>rows\<close> and hands the row to the sink. \<open>out\<close> is what the sink has received.
\<close>

fun exportData_rows :: "(row \<Rightarrow> error + row \<times> string option) \<Rightarrow> row list \<Rightarrow> nat \<Rightarrow> row list
    \<Rightarrow> error + (nat \<times> string option) \<times> row list" where
  "exportData_rows stages [] rows out = Inr ((rows, None), out)"
| "exportData_rows stages (d # source) rows out =
     (case stages d of
        Inl e \<Rightarrow> Inl e
      | Inr (d', Some err) \<Rightarrow> Inr ((rows, Some err), out)
      | Inr (d', None) \<Rightarrow> exportData_rows stages source (rows + 1) (out @ [d']))"

text \<open>
  What the sink of a call of \<^verbatim>\<open>exportData\<close> meets, a parameter (the sink and its writer
  belong to libraries). \<open>None\<close>: every row is written. \<open>Some (w, k, msg)\<close>: \<open>w\<close> rows
  are written and the write of the row that comes next fails with \<open>msg\<close>. \<^verbatim>\<open>Sink\<close>
  returns that error at once, while the stages still run in their own goroutines, and
  \<^verbatim>\<open>exportData\<close> reads \<^verbatim>\<open>rows\<close> without waiting for them: \<open>k\<close> is the number of rows
  the count has seen by then. The row whose write failed has been counted, so the
  number is at least \<open>w + 1\<close>, and it is no more than the source holds.
\<close>

type_synonym sink = "(nat \<times> nat \<times> string) option"

text \<open>
  \<^verbatim>\<open>exportData\<close>: \<open>source\<close> holds the rows this call receives from the table. The
  result is the pair the source returns, with the rows written. When fewer than
  \<open>w + 1\<close> rows reach the sink (the source is shorter, or a stage ends the table
  before), no write fails and the result is that of the stages.
\<close>

definition exportData :: "marshal \<Rightarrow> row list \<Rightarrow> Table \<Rightarrow> sink \<Rightarrow> string
    \<Rightarrow> error + (nat \<times> string option) \<times> row list" where
  "exportData js source table sink timestamp =
     (case sink of
        None \<Rightarrow> exportData_rows (exportData_stages js table timestamp) source 0 []
      | Some (w, k, msg) \<Rightarrow>
          (case exportData_rows (exportData_stages js table timestamp)
                  (take (max (w + 1) k) source) 0 [] of
             Inl e \<Rightarrow> Inl e
           | Inr ((rows, x), out) \<Rightarrow>
               if w < length out then Inr ((rows, Some msg), take w out)
               else Inr ((rows, x), out)))"

text \<open>
  A JSON text by its structure; \<^verbatim>\<open>encoding/json\<close> writes the keys of a Go map in sorted
  order, and a nil slice as \<^verbatim>\<open>null\<close>.
\<close>

datatype json =
    JNull
  | JBool bool
  | JStr string
  | JArr "json list"
  | JObj "(string \<times> json) list"

text \<open>
  What \<^verbatim>\<open>uploadFile\<close> reads from: the read end of the pipe of a shard, which delivers
  the compressed rows that the sink of the shard has written, or the bytes of the manifest.
\<close>

datatype reader = Pipe "row list" | BytesReader json

text \<open>
  The answers of the storage service to one call of \<^verbatim>\<open>uploadFile\<close>: the result of
  \<^verbatim>\<open>getRegionForBucket\<close> (\<open>Inl\<close> the error) and the error of \<^verbatim>\<open>Upload\<close>.
\<close>

record s3_reply =
  region :: "string + string"
  upload :: "string option"

type_synonym s3_objects = "(string \<times> string \<times> reader) list"

text \<open>
  \<^verbatim>\<open>uploadFile\<close>: the objects stored so far are threaded through, each with its bucket,
  its key and what was read; \<open>Some\<close> is the exit through \<^verbatim>\<open>log.Fatalf\<close>.
\<close>

definition uploadFile :: "s3_reply \<Rightarrow> reader \<Rightarrow> string \<Rightarrow> string \<Rightarrow> s3_objects \<Rightarrow> error option \<times> s3_objects" where
  "uploadFile s3 rd bucket outputName objects =
     (case region s3 of
        Inl err \<Rightarrow> (Some (Fatal ''err getting region for bucket: ''), objects)
      | Inr reg \<Rightarrow>
          (case upload s3 of
             Some err \<Rightarrow> (Some (Fatal ''err uploading to s3 path: ''), objects)
           | None \<Rightarrow> (None, objects @ [(bucket, outputName, rd)])))"

text \<open>
  \<^verbatim>\<open>EntryArray\<close> is a slice: \<open>None\<close> is the nil slice a \<^verbatim>\<open>var\<close> declaration gives, and
  \<^verbatim>\<open>append\<close> allocates. An entry is the map literal with the keys \<^verbatim>\<open>url\<close> and
  \<^verbatim>\<open>mandatory\<close>.
\<close>

record Entry =
  url :: string
  mandatory :: bool

type_synonym EntryArray = "Entry list option"

record Manifest =
  Entries :: EntryArray

definition append_Entry :: "EntryArray \<Rightarrow> Entry \<Rightarrow> EntryArray" where
  "append_Entry a e = (case a of None \<Rightarrow> Some [e] | Some es \<Rightarrow> Some (es @ [e]))"

text \<open>
  The string that \<^verbatim>\<open>encoding/json\<close> writes for a Go string: the string itself where it is
  UTF-8, and the replacement character U+FFFD (the bytes EF BF BD) for every byte at
  which \<^verbatim>\<open>utf8.DecodeRuneInString\<close> finds no encoding. \<open>rune_len\<close> is the width of the
  encoding at the head of a string, \<open>0\<close> when there is none. A \<open>JStr\<close> holds the string
  that the text denotes, so the escapes of the encoder (of a quote, of \<^verbatim>\<open><\<close>) do not show.
\<close>

definition in_range :: "char \<Rightarrow> nat \<Rightarrow> nat \<Rightarrow> bool" where
  "in_range c lo hi = (lo \<le> of_char c \<and> of_char c \<le> hi)"

definition rune_len :: "string \<Rightarrow> nat" where
  "rune_len s =
     (case s of
        [] \<Rightarrow> 0
      | c0 # r \<Rightarrow>
          if in_range c0 0 0x7F then 1
          else if in_range c0 0xC2 0xDF
            then (case r of
                    c1 # r1 \<Rightarrow> if in_range c1 0x80 0xBF then 2 else 0
                  | [] \<Rightarrow> 0)
          else if in_range c0 0xE0 0xEF
            then (case r of
                    c1 # c2 # r2 \<Rightarrow>
                      if in_range c1 (if in_range c0 0xE0 0xE0 then 0xA0 else 0x80)
                                     (if in_range c0 0xED 0xED then 0x9F else 0xBF)
                         \<and> in_range c2 0x80 0xBF
                      then 3 else 0
                  | _ \<Rightarrow> 0)
          else if in_range c0 0xF0 0xF4
            then (case r of
                    c1 # c2 # c3 # r3 \<Rightarrow>
                      if in_range c1 (if in_range c0 0xF0 0xF0 then 0x90 else 0x80)
                                     (if in_range c0 0xF4 0xF4 then 0x8F else 0xBF)
                         \<and> in_range c2 0x80 0xBF \<and> in_range c3 0x80 0xBF
                      then 4 else 0
                  | _ \<Rightarrow> 0)
          else 0)"

function ToValidUTF8 :: "string \<Rightarrow> string" where
  "ToValidUTF8 s =
     (if s = [] then []
      else if rune_len s = 0 then [CHR 0xEF, CHR 0xBF, CHR 0xBD] @ ToValidUTF8 (tl s)
      else take (rune_len s) s @ ToValidUTF8 (drop (rune_len s) s))"
  by pat_completeness auto
termination
  by (relation "measure length") auto

declare ToValidUTF8.simps [simp del]

text \<open>
  \<^verbatim>\<open>json.Marshal\<close> on a \<^verbatim>\<open>Manifest\<close>: strings and booleans always encode, so the error
  is \<^verbatim>\<open>nil\<close>.
\<close>

definition json_Marshal_Entry :: "Entry \<Rightarrow> json" where
  "json_Marshal_Entry e =
     JObj [(''mandatory'', JBool (mandatory e)), (''url'', JStr (ToValidUTF8 (url e)))]"

definition json_Marshal :: "Manifest \<Rightarrow> json \<times> string option" where
  "json_Marshal m =
     (JObj [(''entries'', (case Entries m of
                             None \<Rightarrow> JNull
                           | Some es \<Rightarrow> JArr (map json_Marshal_Entry es)))], None)"

fun createManifest_loop :: "string \<Rightarrow> string list \<Rightarrow> EntryArray \<Rightarrow> EntryArray" where
  "createManifest_loop bucket [] entryArray = entryArray"
| "createManifest_loop bucket (fn # rest) entryArray =
     createManifest_loop bucket rest
       (append_Entry entryArray \<lparr>url = ''s3://'' @ bucket @ ''/'' @ fn, mandatory = True\<rparr>)"

definition createManifest :: "string \<Rightarrow> string list \<Rightarrow> string + json" where
  "createManifest bucket dataFilenames =
     (let entryArray = createManifest_loop bucket dataFilenames None
      in case json_Marshal \<lparr>Entries = entryArray\<rparr> of
           (jsonVal, Some err) \<Rightarrow> Inl err
         | (jsonVal, None) \<Rightarrow> Inr jsonVal)"

text \<open>
  \<^verbatim>\<open>main\<close> from the declaration of the two counters to the upload of the manifest
  (\<open>main_fanout\<close>: the part that fans out, joins, reconciles and publishes). What
  \<^verbatim>\<open>main\<close> has computed before, and what the world answers, is a record:
  \<^item> \<open>err\<close> is the error that \<^verbatim>\<open>mongoConnection\<close> returned: the variable \<^verbatim>\<open>err\<close> of
    \<^verbatim>\<open>main\<close>, which \<^verbatim>\<open>main\<close> tests after the call and which every worker tests
    again before it exports;
  \<^item> \<open>totalMongoRows\<close> is the counter of the \<^verbatim>\<open>Each\<close> transform as \<^verbatim>\<open>main\<close> reads it
    after \<^verbatim>\<open>waitGroup.Wait()\<close>;
  \<^item> \<open>shards\<close> has one entry for each of the \<^verbatim>\<open>numFiles\<close> pairs of goroutines, in the
    order in which the pairs come to their end: the loop index the pair was started
    with, the rows its call of \<^verbatim>\<open>exportData\<close> receives from the shared table,
    what its sink meets and the answers to its upload.
  A pair is run as one step: the worker exports, adds its count to
  \<^verbatim>\<open>totalSummedRows\<close> and closes the pipe, then the upload ends and calls \<^verbatim>\<open>Done\<close>.
  Any \<^verbatim>\<open>log.Fatal\<close> and any panic ends the process at once.
\<close>

record shard =
  index :: nat
  claimed :: "row list"
  sink_err :: sink
  s3 :: s3_reply

record run =
  time_Parse :: time_Parse
  json_Marshal_array :: marshal
  timestamp :: string
  Bucket :: string
  sourceTable :: Table
  confFileName :: string
  err :: "string option"
  totalMongoRows :: "64 word"
  shards :: "shard list"
  manifest_s3 :: s3_reply

record state =
  totalSummedRows :: "64 word"
  objects :: s3_objects

definition outputName :: "run \<Rightarrow> nat \<Rightarrow> string" where
  "outputName e i =
     formatFilename (time_Parse e) (timestamp e) (Table.Destination (sourceTable e)) (Itoa i) ''.json.gz''"

definition main_shard :: "run \<Rightarrow> shard \<Rightarrow> state \<Rightarrow> error option \<times> state" where
  "main_shard e sh st =
     (if err e \<noteq> None then (Some (Fatal ''invalid compression level: ''), st)
      else (case exportData (json_Marshal_array e) (claimed sh) (sourceTable e) (sink_err sh) (timestamp e) of
              Inl p \<Rightarrow> (Some p, st)
            | Inr ((count, Some msg), out) \<Rightarrow> (Some (Fatal ''err reading table: ''), st)
            | Inr ((count, None), out) \<Rightarrow>
                (let st' = st\<lparr>totalSummedRows := totalSummedRows st + of_nat count\<rparr>
                 in case uploadFile (s3 sh) (Pipe out) (Bucket e) (outputName e (index sh)) (objects st') of
                      (x, objs) \<Rightarrow> (x, st'\<lparr>objects := objs\<rparr>))))"

fun main_shards :: "run \<Rightarrow> shard list \<Rightarrow> state \<Rightarrow> error option \<times> state" where
  "main_shards e [] st = (None, st)"
| "main_shards e (sh # rest) st =
     (case main_shard e sh st of
        (Some x, st') \<Rightarrow> (Some x, st')
      | (None, st') \<Rightarrow> main_shards e rest st')"

definition manifestFilename :: "run \<Rightarrow> string" where
  "manifestFilename e =
     formatFilename (time_Parse e) (timestamp e) (Table.Destination (sourceTable e)) '''' ''.manifest''"

definition main_fanout :: "run \<Rightarrow> s3_objects \<Rightarrow> (error + string \<times> string \<times> string) \<times> s3_objects" where
  "main_fanout e objs =
     (let outputTableName = Table.Destination (sourceTable e);
          numFiles = length (shards e);
          outputFilenames = map (outputName e) [0..<numFiles]
      in case main_shards e (shards e) \<lparr>totalSummedRows = 0, objects = objs\<rparr> of
           (Some x, st) \<Rightarrow> (Inl x, objects st)
         | (None, st) \<Rightarrow>
             if totalSummedRows st \<noteq> totalMongoRows e
             then (Inl (Fatal ''number of rows written to s3 does not match the number of rows pulled from mongo''),
                   objects st)
             else (case createManifest (Bucket e) outputFilenames of
                     Inl msg \<Rightarrow> (Inl (Fatal ''Error creating manifest: ''), objects st)
                   | Inr manifestReader \<Rightarrow>
                       (case uploadFile (manifest_s3 e) (BytesReader manifestReader) (Bucket e)
                               (manifestFilename e) (objects st) of
                          (Some x, objs') \<Rightarrow> (Inl x, objs')
                        | (None, objs') \<Rightarrow> (Inr (outputTableName, confFileName e, timestamp e), objs'))))"

text \<open>
  \<^verbatim>\<open>main\<close>: the test of the number of parts, the test on the error of
  \<^verbatim>\<open>mongoConnection\<close>, as the source writes it (the run goes on when the error is not
  \<^verbatim>\<open>nil\<close> and exits when it is), and the part above. \<open>objs\<close> holds what is stored
  before, the copy of the configuration among it. The calls in between (the copy of
  the configuration, the choice of the table, and the construction of the source from
  the session, which is \<^verbatim>\<open>nil\<close> when the connection failed) are taken to return.
\<close>

definition main_export :: "run \<Rightarrow> s3_objects \<Rightarrow> (error + string \<times> string \<times> string) \<times> s3_objects" where
  "main_export e objs =
     (let numFiles = length (shards e)
      in if numFiles < 1
         then (Inl (Fatal ''Must specify a number of output file parts >= 1''), objs)
         else if err e \<noteq> None
         then main_fanout e objs
         else (Inl (Fatal ''Could not connect to mongo''), objs))"

section \<open>Vocabulary of the properties\<close>

text \<open>
  The table of the worked example of section 8 of the spec: the field \<^verbatim>\<open>a.b\<close> goes to
  \<^verbatim>\<open>x\<close>, the sensitive field \<^verbatim>\<open>a.c\<close> goes to \<^verbatim>\<open>y\<close>, the date column is
  \<^verbatim>\<open>_data_timestamp\<close>.
\<close>

definition scenario_table :: Table where
  "scenario_table =
     \<lparr>Table.Destination = ''students'', Source = ''students'',
      Fields = [\<lparr>Field.Destination = ''x'', Source = ''a.b'', PII = False\<rparr>,
                \<lparr>Field.Destination = ''y'', Source = ''a.c'', PII = True\<rparr>],
      Meta = \<lparr>Database = '''', DataDateColumn = ''_data_timestamp'',
              UseProjectionOptimization = False\<rparr>\<rparr>"

text \<open>
  What the spec says of PiiMask, for the value found at a sensitive source path
  (\<open>None\<close>: the field is absent): \<^verbatim>\<open>true\<close> if present and not the default of its kind,
  \<^verbatim>\<open>false\<close> if present with the default or absent. The defaults are \<^verbatim>\<open>false\<close>, \<^verbatim>\<open>0\<close>,
  the empty string and \<^verbatim>\<open>nil\<close>.
\<close>

fun is_default :: "val \<Rightarrow> bool" where
  "is_default VNil = True"
| "is_default (VBool b) = (b = False)"
| "is_default (VInt n) = (n = 0)"
| "is_default (VStr s) = (s = '''')"
| "is_default v = False"

definition PiiMask_value :: "val option \<Rightarrow> val" where
  "PiiMask_value x = VBool (case x of None \<Rightarrow> False | Some v \<Rightarrow> \<not> is_default v)"

text \<open>The source paths of the sensitive fields of a list of fields.\<close>

definition sensitive :: "Field list \<Rightarrow> string set" where
  "sensitive fs = Field.Source ` {f \<in> set fs. PII f}"

text \<open>
  The path pattern of section 6 of the spec, word for word:
  \<^verbatim>\<open><collection>/_data_timestamp_year=YYYY/_data_timestamp_month=MM/_data_timestamp_day=DD/mongo_<dest>_<timestamp>[_<shardIndex>].json.gz\<close>,
  the shard index being optional.
\<close>

definition spec_shard_path :: "string \<Rightarrow> string \<Rightarrow> string \<Rightarrow> string \<Rightarrow> string \<Rightarrow> string
    \<Rightarrow> string option \<Rightarrow> string" where
  "spec_shard_path collection YYYY MM DD dest ts shardIndex =
     collection @ ''/_data_timestamp_year='' @ YYYY @ ''/_data_timestamp_month='' @ MM
     @ ''/_data_timestamp_day='' @ DD @ ''/mongo_'' @ dest @ ''_'' @ ts
     @ (case shardIndex of None \<Rightarrow> '''' | Some i \<Rightarrow> ''_'' @ i) @ ''.json.gz''"

text \<open>
  The manifest body of the spec, \<^verbatim>\<open>{"entries":[{"url":...,"mandatory":true}, ...]}\<close>, with
  one entry for each file name, in the order of the file names (the keys of an object
  in sorted order).
\<close>

definition spec_manifest :: "string \<Rightarrow> string list \<Rightarrow> json" where
  "spec_manifest bucket fns =
     JObj [(''entries'',
            JArr (map (\<lambda>fn. JObj [(''mandatory'', JBool True),
                                    (''url'', JStr (''s3://'' @ bucket @ ''/'' @ fn))]) fns))]"

text \<open>
  A string that is UTF-8 (\<^verbatim>\<open>utf8.ValidString\<close>): an encoding begins at its head, and where
  that encoding ends the rest is UTF-8.
\<close>

function ValidString :: "string \<Rightarrow> bool" where
  "ValidString s =
     (if s = [] then True
      else if rune_len s = 0 then False
      else ValidString (drop (rune_len s) s))"
  by pat_completeness auto
termination
  by (relation "measure length") auto

declare ValidString.simps [simp del]

text \<open>
  A run with two shards, for the examples: the pair with index 1 ends first; three rows
  were read, one went to shard 1 and two to shard 0; every upload is accepted.
\<close>

definition scenario_ok :: s3_reply where
  "scenario_ok = \<lparr>region = Inr ''us-east-1'', upload = None\<rparr>"

definition scenario_run :: run where
  "scenario_run =
     \<lparr>time_Parse = (\<lambda>s. Inr \<lparr>Year = 2024, Month = 1, Day = 1\<rparr>),
      json_Marshal_array = (\<lambda>v. (''[]'', None)),
      timestamp = ''2024-01-01T00:00:00Z'',
      Bucket = ''b'',
      sourceTable = scenario_table,
      confFileName = ''c.yml'',
      err = None,
      totalMongoRows = 3,
      shards = [\<lparr>index = 1, claimed = [[(''a'', VMap [(''b'', VInt 5), (''c'', VInt 0)])]],
                  sink_err = None, s3 = scenario_ok\<rparr>,
                \<lparr>index = 0, claimed = [[(''a'', VMap [(''b'', VInt 6)])], [(''a'', VInt 1)]],
                  sink_err = None, s3 = scenario_ok\<rparr>],
      manifest_s3 = scenario_ok\<rparr>"

text \<open>
  The count that the call of \<^verbatim>\<open>exportData\<close> of a shard returns, as the \<^verbatim>\<open>int64\<close> that
  the worker adds to \<^verbatim>\<open>totalSummedRows\<close> (\<open>0\<close> when the call panics and returns nothing).
\<close>

definition shard_count :: "run \<Rightarrow> shard \<Rightarrow> 64 word" where
  "shard_count e sh =
     (case exportData (json_Marshal_array e) (claimed sh) (sourceTable e) (sink_err sh) (timestamp e) of
        Inl p \<Rightarrow> 0
      | Inr ((count, x), out) \<Rightarrow> of_nat count)"

text \<open>An object that the upload of a shard stores: under the name of a shard, read from a pipe.\<close>

definition shard_object :: "run \<Rightarrow> string \<times> string \<times> reader \<Rightarrow> bool" where
  "shard_object e ob = (\<exists>i out. ob = (Bucket e, outputName e i, Pipe out))"

text \<open>The manifest among the objects: an object under the name of the manifest, or read from its bytes.\<close>

definition manifest_object :: "run \<Rightarrow> string \<times> string \<times> reader \<Rightarrow> bool" where
  "manifest_object e ob =
     (case ob of
        (bucket, name, BytesReader j) \<Rightarrow> True
      | (bucket, name, Pipe out) \<Rightarrow> name = manifestFilename e)"

text \<open>
  Flatten by the words of the spec, as the entries it writes one after the other:
  a nested mapping under \<open>key\<close> gives the entries of its fields under \<open>key\<close>, a dot and
  the name of the field; an array under \<open>key\<close> gives its serialized string under
  \<open>key\<close> and then, for every element that is a mapping, the entries of that mapping
  under \<open>key\<close>; any other value is one entry. A later entry with the key of an earlier
  one overwrites it.
\<close>

fun spec_entries :: "marshal \<Rightarrow> string \<Rightarrow> val \<Rightarrow> (string \<times> val) list" where
  "spec_entries js key (VMap m) = concat (map (\<lambda>p. spec_entries js (key @ ''.'' @ fst p) (snd p)) m)"
| "spec_entries js key (VRow m) = concat (map (\<lambda>p. spec_entries js (key @ ''.'' @ fst p) (snd p)) m)"
| "spec_entries js key (VArr xs) =
     (key, VStr (fst (js xs)))
     # concat (map (\<lambda>x. if is_mapping x then spec_entries js key x else []) xs)"
| "spec_entries js key v = [(key, v)]"

definition spec_row_entries :: "marshal \<Rightarrow> row \<Rightarrow> (string \<times> val) list" where
  "spec_row_entries js r = concat (map (\<lambda>p. spec_entries js (fst p) (snd p)) r)"

definition overwrite :: "(string \<times> val) list \<Rightarrow> row \<Rightarrow> row" where
  "overwrite entries r = fold (\<lambda>p. AList.update (fst p) (snd p)) entries r"

text \<open>
  The values of a row and the flattened keys under which Flatten meets them, at any
  depth: the fields of the row, the fields of a mapping that is met, and the elements
  of an array that is met which are mappings (under the key of the array).
\<close>

inductive visited :: "row \<Rightarrow> string \<Rightarrow> val \<Rightarrow> bool" for r :: row where
  field: "(k, v) \<in> set r \<Longrightarrow> visited r k v"
| nested_map: "visited r K (VMap m) \<Longrightarrow> (k, v) \<in> set m \<Longrightarrow> visited r (K @ ''.'' @ k) v"
| nested_row: "visited r K (VRow m) \<Longrightarrow> (k, v) \<in> set m \<Longrightarrow> visited r (K @ ''.'' @ k) v"
| element: "visited r K (VArr xs) \<Longrightarrow> x \<in> set xs \<Longrightarrow> is_mapping x \<Longrightarrow> visited r K x"

section \<open>Flatten\<close>

lemma flatten_value_scalar: "scalar v \<Longrightarrow> flatten_value js v key acc = AList.update key v acc"
  by (cases v) simp_all

lemma flatten_distinct:
  "distinct (map fst acc) \<Longrightarrow> distinct (map fst (flatten js r lkey acc))"
  "distinct (map fst acc) \<Longrightarrow> distinct (map fst (flatten_value js v key acc))"
  "distinct (map fst acc) \<Longrightarrow> distinct (map fst (flatten_subvalues js xs key acc))"
  by (induction js r lkey acc and js v key acc and js xs key acc
      rule: flatten_flatten_value_flatten_subvalues.induct)
     (simp_all add: distinct_update)

lemma flat_update: "flat acc \<Longrightarrow> scalar v \<Longrightarrow> flat (AList.update k v acc)"
  unfolding flat_def by (induction acc) auto

lemma flatten_flat:
  "flat acc \<Longrightarrow> flat (flatten js r lkey acc)"
  "flat acc \<Longrightarrow> flat (flatten_value js v key acc)"
  "flat acc \<Longrightarrow> flat (flatten_subvalues js xs key acc)"
  by (induction js r lkey acc and js v key acc and js xs key acc
      rule: flatten_flatten_value_flatten_subvalues.induct)
     (simp_all add: flat_update)

lemma Flattener_flat: "flat (fst (Flattener js r))"
  unfolding Flattener_def using flatten_flat(1)[of "[]" js r "''''"] by (simp add: flat_def)

lemma Flattener_distinct: "distinct (map fst (fst (Flattener js r)))"
  unfolding Flattener_def using flatten_distinct(1)[of "[]" js r "''''"] by simp

text \<open>A key that the row does not hold yet is added at its end.\<close>

lemma update_fresh: "k \<notin> fst ` set acc \<Longrightarrow> AList.update k v acc = acc @ [(k, v)]"
  by (induction acc) auto

lemma flatten_flat_append:
  "flat r \<Longrightarrow> distinct (map fst (acc @ r)) \<Longrightarrow> flatten js r '''' acc = acc @ r"
proof (induction r arbitrary: acc)
  case Nil
  then show ?case by simp
next
  case (Cons p r)
  obtain k v where p: "p = (k, v)" by (cases p)
  from Cons.prems p have sc: "scalar v" and fresh: "k \<notin> fst ` set acc"
    by (auto simp: flat_def)
  have "flatten js (p # r) '''' acc = flatten js r '''' (acc @ [(k, v)])"
    using sc fresh by (simp add: p flatten_value_scalar update_fresh)
  also have "\<dots> = (acc @ [(k, v)]) @ r"
    using Cons.prems by (intro Cons.IH) (auto simp: p flat_def)
  finally show ?case by (simp add: p)
qed

lemma flatten_flat_map_of:
  "flat r \<Longrightarrow> map_of (flatten js r '''' acc) = map_of acc ++ map_of (rev r)"
proof (induction r arbitrary: acc)
  case Nil
  then show ?case by simp
next
  case (Cons p r)
  obtain k v where p: "p = (k, v)" by (cases p)
  from Cons.prems p have sc: "scalar v" and fl: "flat r"
    by (auto simp: flat_def)
  have "map_of (flatten js (p # r) '''' acc) = map_of (AList.update k v acc) ++ map_of (rev r)"
    using sc fl Cons.IH by (simp add: p flatten_value_scalar)
  then show ?case
    by (auto simp: p update_conv' fun_eq_iff map_add_def split: option.splits)
qed

lemma map_of_rev_distinct: "distinct (map fst r) \<Longrightarrow> map_of (rev r) = map_of r"
  by (simp add: distinct_map map_of_inject_set distinct_rev)

lemma Flattener_of_flat:
  assumes "flat r" and "distinct (map fst r)"
  shows "map_of (fst (Flattener js r)) = map_of r"
  using assms by (simp add: Flattener_def flatten_flat_map_of map_of_rev_distinct)

lemma flat_of_map_of:
  assumes "distinct (map fst r')" and "map_of r' = map_of r" and "flat r"
  shows "flat r'"
  unfolding flat_def
proof
  fix p assume "p \<in> set r'"
  then have "map_of r' (fst p) = Some (snd p)"
    using assms(1) by (simp add: map_of_eq_Some_iff)
  then have "map_of r (fst p) = Some (snd p)"
    using assms(2) by simp
  then have "(fst p, snd p) \<in> set r"
    by (rule map_of_SomeD)
  then show "scalar (snd p)"
    using assms(3) by (force simp: flat_def)
qed

text \<open>
  What \<^verbatim>\<open>flatten\<close> writes: under the prefix \<open>lkey\<close> only keys that begin with it; for
  one value under \<open>key\<close>, \<open>key\<close> itself and keys that begin with \<open>key\<close> and a dot; for
  the elements of an array under \<open>key\<close>, only keys that begin with \<open>key\<close> and a dot.
\<close>

lemma flatten_writes:
  "\<not> prefix lkey k \<Longrightarrow> map_of (flatten js r lkey acc) k = map_of acc k"
  "k \<noteq> key \<Longrightarrow> \<not> prefix (key @ ''.'') k \<Longrightarrow> map_of (flatten_value js v key acc) k = map_of acc k"
  "\<not> prefix (key @ ''.'') k \<Longrightarrow> map_of (flatten_subvalues js xs key acc) k = map_of acc k"
proof (induction js r lkey acc and js v key acc and js xs key acc
       rule: flatten_flatten_value_flatten_subvalues.induct)
  case (2 js rkey v rest lkey flattened)
  from "2.prems" have "k \<noteq> lkey @ rkey" and "\<not> prefix ((lkey @ rkey) @ ''.'') k"
    by (auto simp: prefix_def)
  with 2 show ?case by simp
qed (simp_all add: update_conv')

lemma flatten_subvalues_keeps_key:
  "map_of (flatten_subvalues js xs key acc) key = map_of acc key"
  by (rule flatten_writes(3)) (simp add: prefix_def)

lemma flatten_value_array_key:
  "map_of (flatten_value js (VArr xs) key acc) key = Some (VStr (fst (js xs)))"
  by (simp add: flatten_subvalues_keeps_key update_conv')

lemma flatten_subvalues_fold:
  "flatten_subvalues js xs key acc =
     fold (\<lambda>sv a. if is_mapping sv then flatten_value js sv key a else a) xs acc"
proof (induction xs arbitrary: acc)
  case Nil
  then show ?case by simp
next
  case (Cons x xs)
  then show ?case by (cases x) simp_all
qed

lemma flatten_subvalues_no_mapping:
  "\<forall>x\<in>set xs. \<not> is_mapping x \<Longrightarrow> flatten_subvalues js xs key acc = acc"
  by (induction xs arbitrary: acc) (simp_all add: flatten_subvalues_fold)

lemma flatten_untouched:
  "\<forall>p\<in>set r. fst p \<noteq> k \<Longrightarrow> CHR ''.'' \<notin> set k \<Longrightarrow> map_of (flatten js r '''' acc) k = map_of acc k"
proof (induction r arbitrary: acc)
  case Nil
  then show ?case by simp
next
  case (Cons p r)
  obtain k' v where p: "p = (k', v)" by (cases p)
  from Cons.prems have ne: "k \<noteq> k'" and np: "\<not> prefix (k' @ ''.'') k"
    by (auto simp: p prefix_def)
  have "map_of (flatten js (p # r) '''' acc) k = map_of (flatten_value js v k' acc) k"
    using Cons by (simp add: p)
  also have "\<dots> = map_of acc k"
    using ne np by (rule flatten_writes(2))
  finally show ?case .
qed

lemma flatten_array_entry:
  "distinct (map fst r) \<Longrightarrow> (k, VArr xs) \<in> set r \<Longrightarrow> CHR ''.'' \<notin> set k
   \<Longrightarrow> map_of (flatten js r '''' acc) k = Some (VStr (fst (js xs)))"
proof (induction r arbitrary: acc)
  case Nil
  then show ?case by simp
next
  case (Cons p r)
  obtain k' v where p: "p = (k', v)" by (cases p)
  show ?case
  proof (cases "k' = k")
    case True
    with Cons.prems p have v: "v = VArr xs" and rest: "\<forall>q\<in>set r. fst q \<noteq> k"
      by (auto simp: rev_image_eqI)
    have "map_of (flatten js (p # r) '''' acc) k
          = map_of (flatten js r '''' (flatten_value js (VArr xs) k acc)) k"
      by (simp add: p True v)
    also have "\<dots> = map_of (flatten_value js (VArr xs) k acc) k"
      using rest Cons.prems(3) by (rule flatten_untouched)
    finally show ?thesis by (simp only: flatten_value_array_key)
  next
    case False
    with Cons.prems p have "distinct (map fst r)" and "(k, VArr xs) \<in> set r"
      by auto
    then show ?thesis
      using Cons.IH Cons.prems(3) by (simp add: p)
  qed
qed

text \<open>
  C10. The Flatten stage never returns an error: the transform of \<^verbatim>\<open>Flattener\<close> is a
  total function and the error it returns is always \<^verbatim>\<open>nil\<close>, whatever the row and
  whatever \<^verbatim>\<open>json.Marshal\<close> answers. The error of \<^verbatim>\<open>json.Marshal\<close> on an array is
  dropped: once the array is flattened, its key holds the string made of the bytes
  that \<^verbatim>\<open>json.Marshal\<close> returned, also when it returned them with an error (last
  conjunct: a serializer that fails on every array with no bytes).
\<close>

theorem Flattener_never_fails:
  "snd (Flattener js r) = None
   \<and> (\<exists>outRow. Flattener js r = (outRow, None))
   \<and> map_of (flatten_value js (VArr xs) key acc) key = Some (VStr (fst (js xs)))
   \<and> Flattener (\<lambda>v. ('''', Some ''json: unsupported value'')) [(''a'', VArr [VInt 1])]
       = ([(''a'', VStr '''')], None)"
proof (intro conjI)
  show "map_of (flatten_value js (VArr xs) key acc) key = Some (VStr (fst (js xs)))"
    by (rule flatten_value_array_key)
qed (simp_all add: Flattener_def)

text \<open>
  C8. Flatten is idempotent: flattening the row that \<^verbatim>\<open>Flattener\<close> returned gives that
  row again. The second \<^verbatim>\<open>Flattener\<close> ranges over a Go map, so the order in which it
  visits the flattened row is open: the result is the same map for every order
  \<open>r'\<close> of its entries. A row that is flat already is returned as it is.
\<close>

theorem Flattener_idempotent:
  "fst (Flattener js' (fst (Flattener js r))) = fst (Flattener js r)
   \<and> (\<forall>r'. distinct (map fst r') \<and> map_of r' = map_of (fst (Flattener js r))
          \<longrightarrow> map_of (fst (Flattener js' r')) = map_of (fst (Flattener js r)))
   \<and> (\<forall>r'. distinct (map fst r') \<and> flat r' \<longrightarrow> map_of (fst (Flattener js r')) = map_of r')"
proof (intro conjI allI impI)
  show "fst (Flattener js' (fst (Flattener js r))) = fst (Flattener js r)"
    using flatten_flat_append[of "fst (Flattener js r)" "[]" js'] Flattener_flat[of js r]
      Flattener_distinct[of js r]
    by (simp add: Flattener_def)
next
  fix r' assume a: "distinct (map fst r') \<and> map_of r' = map_of (fst (Flattener js r))"
  then have "flat r'"
    using flat_of_map_of[of r' "fst (Flattener js r)"] Flattener_flat[of js r] by simp
  then have "map_of (fst (Flattener js' r')) = map_of r'"
    using a by (simp add: Flattener_of_flat)
  then show "map_of (fst (Flattener js' r')) = map_of (fst (Flattener js r))"
    using a by simp
next
  fix r' assume "distinct (map fst r') \<and> flat r'"
  then show "map_of (fst (Flattener js r')) = map_of r'"
    by (simp add: Flattener_of_flat)
qed

theorem Flattener_idempotent_witness:
  "distinct (map fst [(''a.c'', VStr ''[1]''), (''a.b'', VInt 5)])
   \<and> map_of [(''a.c'', VStr ''[1]''), (''a.b'', VInt 5)]
       = map_of (fst (Flattener (\<lambda>v. (''[1]'', None))
           [(''a'', VMap [(''b'', VInt 5), (''c'', VArr [VInt 1])])]))
   \<and> flat [(''a.c'', VStr ''[1]''), (''a.b'', VInt 5)]
   \<and> map_of (fst (Flattener (\<lambda>v. (''[1]'', None)) [(''a.c'', VStr ''[1]''), (''a.b'', VInt 5)]))
       = map_of (fst (Flattener (\<lambda>v. (''[1]'', None))
           [(''a'', VMap [(''b'', VInt 5), (''c'', VArr [VInt 1])])]))
   \<and> fst (Flattener (\<lambda>v. (''[1]'', None)) (fst (Flattener (\<lambda>v. (''[1]'', None))
           [(''a'', VMap [(''b'', VInt 5), (''c'', VArr [VInt 1])])])))
       = [(''a.b'', VInt 5), (''a.c'', VStr ''[1]'')]"
proof -
  let ?js = "\<lambda>v :: val list. (''[1]'', None :: string option)"
  let ?r = "[(''a'', VMap [(''b'', VInt 5), (''c'', VArr [VInt 1])])]"
  let ?r' = "[(''a.c'', VStr ''[1]''), (''a.b'', VInt 5)]"
  have f: "fst (Flattener ?js ?r) = [(''a.b'', VInt 5), (''a.c'', VStr ''[1]'')]"
    by (simp add: Flattener_def)
  have d: "distinct (map fst ?r')"
    by simp
  have m: "map_of ?r' = map_of (fst (Flattener ?js ?r))"
    unfolding f by (rule ext) simp
  have fl: "flat ?r'"
    by (simp add: flat_def)
  from Flattener_idempotent[of ?js ?js ?r] d m fl f show ?thesis
    by metis
qed


text \<open>Flatten writes the entries of the spec, one after the other, into the row.\<close>

lemma overwrite_Nil [simp]: "overwrite [] r = r"
  by (simp add: overwrite_def)

lemma overwrite_Cons [simp]: "overwrite (p # es) r = overwrite es (AList.update (fst p) (snd p) r)"
  by (simp add: overwrite_def)

lemma overwrite_append [simp]: "overwrite (es @ es') r = overwrite es' (overwrite es r)"
  by (simp add: overwrite_def)

lemma flatten_spec_entries:
  "flatten js r lkey acc
     = overwrite (concat (map (\<lambda>p. spec_entries js (lkey @ fst p) (snd p)) r)) acc"
  "flatten_value js v key acc = overwrite (spec_entries js key v) acc"
  "flatten_subvalues js xs key acc
     = overwrite (concat (map (\<lambda>x. if is_mapping x then spec_entries js key x else []) xs)) acc"
  by (induction js r lkey acc and js v key acc and js xs key acc
      rule: flatten_flatten_value_flatten_subvalues.induct)
     simp_all

lemma Flattener_spec_entries: "fst (Flattener js r) = overwrite (spec_row_entries js r) []"
  by (simp add: Flattener_def spec_row_entries_def flatten_spec_entries(1))

lemma map_of_overwrite: "map_of (overwrite es r) = map_of r ++ map_of (rev es)"
proof (induction es arbitrary: r)
  case Nil
  then show ?case by simp
next
  case (Cons p es)
  then show ?case
    by (cases p) (auto simp: update_conv' fun_eq_iff map_add_def split: option.splits)
qed

lemma map_of_overwrite_only:
  assumes "(K, w) \<in> set es" and "\<forall>w'. (K, w') \<in> set es \<longrightarrow> w' = w"
  shows "map_of (overwrite es r) K = Some w"
proof -
  from assms(1) have "K \<in> fst ` set (rev es)"
    by force
  then obtain w' where w': "map_of (rev es) K = Some w'"
    by (cases "map_of (rev es) K") (auto simp: map_of_eq_None_iff)
  then have "(K, w') \<in> set es"
    using map_of_SomeD by fastforce
  with assms(2) w' show ?thesis
    by (simp add: map_of_overwrite map_add_def)
qed

lemma visited_entries:
  "visited r K v \<Longrightarrow> set (spec_entries js K v) \<subseteq> set (spec_row_entries js r)"
proof (induction rule: visited.induct)
  case (field k v)
  then show ?case by (force simp: spec_row_entries_def)
next
  case (nested_map K m k v)
  then show ?case by force
next
  case (nested_row K m k v)
  then show ?case by force
next
  case (element K xs x)
  then show ?case by force
qed

lemma visited_array_entry:
  "visited r K (VArr xs) \<Longrightarrow> (K, VStr (fst (js xs))) \<in> set (spec_row_entries js r)"
  using visited_entries[of r K "VArr xs" js] by simp

lemma visited_scalar_entry:
  "visited r K v \<Longrightarrow> scalar v \<Longrightarrow> (K, v) \<in> set (spec_row_entries js r)"
  using visited_entries[of r K v js] by (cases v) simp_all

lemma spec_entries_origin:
  "(K', w) \<in> set (spec_entries js K v) \<Longrightarrow> visited r K v
   \<Longrightarrow> (\<exists>xs. visited r K' (VArr xs) \<and> w = VStr (fst (js xs))) \<or> (visited r K' w \<and> scalar w)"
proof (induction js K v arbitrary: K' w rule: spec_entries.induct)
  case (1 js key m)
  then obtain p where p: "p \<in> set m" "(K', w) \<in> set (spec_entries js (key @ ''.'' @ fst p) (snd p))"
    by auto
  have "visited r (key @ ''.'' @ fst p) (snd p)"
    using visited.nested_map[OF "1.prems"(2), of "fst p" "snd p"] p(1) by simp
  with "1.IH" p show ?case by blast
next
  case (2 js key m)
  then obtain p where p: "p \<in> set m" "(K', w) \<in> set (spec_entries js (key @ ''.'' @ fst p) (snd p))"
    by auto
  have "visited r (key @ ''.'' @ fst p) (snd p)"
    using visited.nested_row[OF "2.prems"(2), of "fst p" "snd p"] p(1) by simp
  with "2.IH" p show ?case by blast
next
  case (3 js key xs)
  show ?case
  proof (cases "(K', w) = (key, VStr (fst (js xs)))")
    case True
    with "3.prems"(2) show ?thesis by auto
  next
    case False
    with "3.prems"(1) obtain x where x: "x \<in> set xs" "is_mapping x"
        "(K', w) \<in> set (spec_entries js key x)"
      by (auto split: if_splits)
    have "visited r key x"
      using visited.element[OF "3.prems"(2) x(1) x(2)] .
    with "3.IH" x show ?thesis by blast
  qed
qed (auto)

lemma spec_row_entries_origin:
  assumes "(K, w) \<in> set (spec_row_entries js r)"
  shows "(\<exists>xs. visited r K (VArr xs) \<and> w = VStr (fst (js xs))) \<or> (visited r K w \<and> scalar w)"
proof -
  from assms obtain p where p: "p \<in> set r" "(K, w) \<in> set (spec_entries js (fst p) (snd p))"
    by (auto simp: spec_row_entries_def)
  have "visited r (fst p) (snd p)"
    using visited.field[of "fst p" "snd p" r] p(1) by simp
  from spec_entries_origin[OF p(2) this] show ?thesis .
qed

lemma spec_entries_no_mapping:
  "\<forall>x\<in>set xs. \<not> is_mapping x \<Longrightarrow> spec_entries js K (VArr xs) = [(K, VStr (fst (js xs)))]"
  by (induction xs) simp_all


text \<open>
  C7. The row that Flatten returns is the row of the entries of the spec, written one
  after the other. So, for every array that Flatten meets in the row, at any depth,
  under its flattened key \<open>K\<close>: its serialized string is written under \<open>K\<close>; every
  element that is a mapping is flattened under \<open>K\<close> too, its fields under \<open>K\<close>, a dot
  and their names; an array with no mapping among its elements gives the one entry;
  and \<open>K\<close> holds the string in the row returned when no other entry is written under
  \<open>K\<close>. Nothing else is written: every entry is the string of an array that is met or
  a value that is no mapping and no array. The elements of an array never write to
  the key of the array itself. The last seven conjuncts are rows: a nested array
  beside other fields; an element with three fields; two elements of one array that
  write the same key, the later one stays; an element and an array with the key
  \<^verbatim>\<open>a.b\<close> that write the same key, where the order in which the row is visited
  decides whether the element or the string of the array stays; and the same inside
  one array, between an element and the string of an array nested in another
  element, by the order of the elements.
\<close>

theorem flatten_array:
  "fst (Flattener js r) = overwrite (spec_row_entries js r) []
   \<and> (\<forall>K ys. visited r K (VArr ys) \<longrightarrow>
         (K, VStr (fst (js ys))) \<in> set (spec_row_entries js r)
         \<and> (\<forall>x\<in>set ys. is_mapping x \<longrightarrow> set (spec_entries js K x) \<subseteq> set (spec_row_entries js r))
         \<and> ((\<forall>x\<in>set ys. \<not> is_mapping x) \<longrightarrow> spec_entries js K (VArr ys) = [(K, VStr (fst (js ys)))])
         \<and> ((\<forall>w. (K, w) \<in> set (spec_row_entries js r) \<longrightarrow> w = VStr (fst (js ys)))
              \<longrightarrow> map_of (fst (Flattener js r)) K = Some (VStr (fst (js ys)))))
   \<and> (\<forall>K w. (K, w) \<in> set (spec_row_entries js r) \<longrightarrow>
         (\<exists>ys. visited r K (VArr ys) \<and> w = VStr (fst (js ys))) \<or> (visited r K w \<and> scalar w))
   \<and> map_of (flatten_value js (VArr xs) key acc) key = Some (VStr (fst (js xs)))
   \<and> ((\<forall>x\<in>set xs. \<not> is_mapping x)
        \<longrightarrow> flatten_value js (VArr xs) key acc = AList.update key (VStr (fst (js xs))) acc)
   \<and> fst (Flattener js [(''id'', VInt 7),
                          (''a'', VMap [(''tags'', VArr [VInt 1]), (''y'', VInt 2), (''z'', VInt 3)])])
       = [(''id'', VInt 7), (''a.tags'', VStr (fst (js [VInt 1]))), (''a.y'', VInt 2), (''a.z'', VInt 3)]
   \<and> fst (Flattener js [(''a'', VArr [VMap [(''u'', VInt 1), (''v'', VInt 2), (''w'', VInt 3)]])])
       = [(''a'', VStr (fst (js [VMap [(''u'', VInt 1), (''v'', VInt 2), (''w'', VInt 3)]]))),
          (''a.u'', VInt 1), (''a.v'', VInt 2), (''a.w'', VInt 3)]
   \<and> fst (Flattener js [(''a'', VArr [VMap [(''x'', VInt 1)], VMap [(''x'', VInt 2)]])])
       = [(''a'', VStr (fst (js [VMap [(''x'', VInt 1)], VMap [(''x'', VInt 2)]]))), (''a.x'', VInt 2)]
   \<and> fst (Flattener js [(''a'', VArr [VMap [(''b'', VInt 1)]]), (''a.b'', VArr [])])
       = [(''a'', VStr (fst (js [VMap [(''b'', VInt 1)]]))), (''a.b'', VStr (fst (js [])))]
   \<and> fst (Flattener js [(''a.b'', VArr []), (''a'', VArr [VMap [(''b'', VInt 1)]])])
       = [(''a.b'', VInt 1), (''a'', VStr (fst (js [VMap [(''b'', VInt 1)]])))]
   \<and> fst (Flattener js [(''a'', VArr [VMap [(''b'', VArr [])], VMap [(''b'', VInt 1)]])])
       = [(''a'', VStr (fst (js [VMap [(''b'', VArr [])], VMap [(''b'', VInt 1)]]))),
          (''a.b'', VInt 1)]
   \<and> fst (Flattener js [(''a'', VArr [VMap [(''b'', VInt 1)], VMap [(''b'', VArr [])]])])
       = [(''a'', VStr (fst (js [VMap [(''b'', VInt 1)], VMap [(''b'', VArr [])]]))),
          (''a.b'', VStr (fst (js [])))]"
proof (intro conjI allI impI ballI)
  show "fst (Flattener js r) = overwrite (spec_row_entries js r) []"
    by (rule Flattener_spec_entries)
next
  fix K ys assume "visited r K (VArr ys)"
  then show "(K, VStr (fst (js ys))) \<in> set (spec_row_entries js r)"
    by (rule visited_array_entry)
next
  fix K ys x assume "visited r K (VArr ys)" and "x \<in> set ys" and "is_mapping x"
  then have "visited r K x"
    by (rule visited.element)
  then show "set (spec_entries js K x) \<subseteq> set (spec_row_entries js r)"
    by (rule visited_entries)
next
  fix K ys assume "\<forall>x\<in>set ys. \<not> is_mapping x"
  then show "spec_entries js K (VArr ys) = [(K, VStr (fst (js ys)))]"
    by (rule spec_entries_no_mapping)
next
  fix K ys
  assume v: "visited r K (VArr ys)"
    and u: "\<forall>w. (K, w) \<in> set (spec_row_entries js r) \<longrightarrow> w = VStr (fst (js ys))"
  from visited_array_entry[OF v] u
  show "map_of (fst (Flattener js r)) K = Some (VStr (fst (js ys)))"
    unfolding Flattener_spec_entries by (rule map_of_overwrite_only)
next
  fix K w assume "(K, w) \<in> set (spec_row_entries js r)"
  then show "(\<exists>ys. visited r K (VArr ys) \<and> w = VStr (fst (js ys))) \<or> (visited r K w \<and> scalar w)"
    by (rule spec_row_entries_origin)
next
  show "map_of (flatten_value js (VArr xs) key acc) key = Some (VStr (fst (js xs)))"
    by (rule flatten_value_array_key)
next
  assume "\<forall>x\<in>set xs. \<not> is_mapping x"
  then show "flatten_value js (VArr xs) key acc = AList.update key (VStr (fst (js xs))) acc"
    by (simp add: flatten_subvalues_no_mapping)
qed (simp_all add: Flattener_def)

theorem flatten_array_witness:
  "visited [(''id'', VInt 7), (''a'', VMap [(''tags'', VArr [VInt 1, VStr ''s'']), (''y'', VInt 2)])]
      ''a.tags'' (VArr [VInt 1, VStr ''s''])
   \<and> spec_row_entries (\<lambda>v. (''J'', None))
        [(''id'', VInt 7), (''a'', VMap [(''tags'', VArr [VInt 1, VStr ''s'']), (''y'', VInt 2)])]
       = [(''id'', VInt 7), (''a.tags'', VStr ''J''), (''a.y'', VInt 2)]
   \<and> \<not> is_mapping (VInt 1) \<and> \<not> is_mapping (VStr ''s'')
   \<and> map_of (fst (Flattener (\<lambda>v. (''J'', None))
        [(''id'', VInt 7), (''a'', VMap [(''tags'', VArr [VInt 1, VStr ''s'']), (''y'', VInt 2)])]))
        ''a.tags'' = Some (VStr ''J'')
   \<and> flatten_value (\<lambda>v. (''J'', None)) (VArr [VInt 1, VStr ''s'']) ''a.tags'' []
       = [(''a.tags'', VStr ''J'')]
   \<and> visited [(''a'', VArr [VMap [(''u'', VInt 1)]])] ''a'' (VArr [VMap [(''u'', VInt 1)]])
   \<and> is_mapping (VMap [(''u'', VInt 1)])
   \<and> set (spec_entries (\<lambda>v. (''J'', None)) ''a'' (VMap [(''u'', VInt 1)]))
       \<subseteq> set (spec_row_entries (\<lambda>v. (''J'', None)) [(''a'', VArr [VMap [(''u'', VInt 1)]])])
   \<and> (''a.u'', VInt 1) \<in> set (spec_row_entries (\<lambda>v. (''J'', None)) [(''a'', VArr [VMap [(''u'', VInt 1)]])])
   \<and> visited [(''a'', VArr [VMap [(''u'', VInt 1)]])] ''a.u'' (VInt 1)"
proof -
  let ?js = "\<lambda>v :: val list. (''J'', None :: string option)"
  let ?r = "[(''id'', VInt 7), (''a'', VMap [(''tags'', VArr [VInt 1, VStr ''s'']), (''y'', VInt 2)])]"
  let ?q = "[(''a'', VArr [VMap [(''u'', VInt 1)]])]"
  have v0: "visited ?r ''a'' (VMap [(''tags'', VArr [VInt 1, VStr ''s'']), (''y'', VInt 2)])"
    by (rule visited.field) simp
  have v: "visited ?r ''a.tags'' (VArr [VInt 1, VStr ''s''])"
    using visited.nested_map[OF v0, of "''tags''" "VArr [VInt 1, VStr ''s'']"] by simp
  have es: "spec_row_entries ?js ?r = [(''id'', VInt 7), (''a.tags'', VStr ''J''), (''a.y'', VInt 2)]"
    by (simp add: spec_row_entries_def)
  have u: "\<forall>w. (''a.tags'', w) \<in> set (spec_row_entries ?js ?r) \<longrightarrow> w = VStr (fst (?js [VInt 1, VStr ''s'']))"
    unfolding es by simp
  have nm: "\<forall>x\<in>set [VInt 1, VStr ''s'']. \<not> is_mapping x"
    by simp
  note t = flatten_array[where js = ?js and r = ?r and xs = "[VInt 1, VStr ''s'']"
      and key = "''a.tags''" and acc = "[]"]
  from t v u have m: "map_of (fst (Flattener ?js ?r)) ''a.tags'' = Some (VStr ''J'')"
    by (metis fst_conv)
  from t nm have f: "flatten_value ?js (VArr [VInt 1, VStr ''s'']) ''a.tags'' [] = [(''a.tags'', VStr ''J'')]"
    by simp
  have w0: "visited ?q ''a'' (VArr [VMap [(''u'', VInt 1)]])"
    by (rule visited.field) simp
  note t' = flatten_array[where js = ?js and r = ?q]
  from t' w0 have sub: "set (spec_entries ?js ''a'' (VMap [(''u'', VInt 1)]))
       \<subseteq> set (spec_row_entries ?js ?q)"
    by (metis is_mapping.simps(1) list.set_intros(1))
  then have mem: "(''a.u'', VInt 1) \<in> set (spec_row_entries ?js ?q)"
    by simp
  with t' have "(\<exists>ys. visited ?q ''a.u'' (VArr ys) \<and> VInt 1 = VStr (fst (?js ys)))
      \<or> (visited ?q ''a.u'' (VInt 1) \<and> scalar (VInt 1))"
    by blast
  then have w1: "visited ?q ''a.u'' (VInt 1)"
    by simp
  from v es m f w0 sub mem w1 show ?thesis
    by simp
qed

section \<open>PiiMask\<close>

lemma IsZeroOfUnderlyingType_default:
  "v \<noteq> VNil \<Longrightarrow> IsZeroOfUnderlyingType v = Inr (is_default v)"
  by (cases v) simp_all

lemma PiiMask_value_twice: "PiiMask_value (Some (PiiMask_value x)) = PiiMask_value x"
  by (simp add: PiiMask_value_def)

lemma sensitive_Cons:
  "sensitive (f # fs) = (if PII f then insert (Field.Source f) (sensitive fs) else sensitive fs)"
  by (auto simp: sensitive_def)

text \<open>
  When no sensitive source path holds \<^verbatim>\<open>nil\<close>, the loop over the fields ends, every
  sensitive source path holds the boolean of the spec and every other key is as before.
\<close>

lemma GetExistentialTransformerFn_loop_masks:
  "\<forall>s\<in>sensitive fs. map_of r s \<noteq> Some VNil
   \<Longrightarrow> \<exists>r'. GetExistentialTransformerFn_loop fs r = Inr r'
          \<and> map_of r' = (\<lambda>k. if k \<in> sensitive fs then Some (PiiMask_value (map_of r k)) else map_of r k)"
proof (induction fs arbitrary: r)
  case Nil
  then show ?case by (simp add: sensitive_def)
next
  case (Cons f fs)
  show ?case
  proof (cases "PII f")
    case False
    with Cons show ?thesis by (simp add: sensitive_Cons)
  next
    case True
    let ?s = "Field.Source f"
    let ?r1 = "AList.update ?s (PiiMask_value (map_of r ?s)) r"
    from Cons.prems True have nn: "map_of r ?s \<noteq> Some VNil"
      by (simp add: sensitive_Cons)
    have step: "GetExistentialTransformerFn_loop (f # fs) r = GetExistentialTransformerFn_loop fs ?r1"
    proof (cases "map_of r ?s")
      case None
      then show ?thesis using True by (simp add: PiiMask_value_def)
    next
      case (Some v)
      with nn have "v \<noteq> VNil" by simp
      then show ?thesis
        using True Some by (simp add: PiiMask_value_def IsZeroOfUnderlyingType_default)
    qed
    have "\<forall>s\<in>sensitive fs. map_of ?r1 s \<noteq> Some VNil"
      using Cons.prems True by (auto simp: update_conv' sensitive_Cons PiiMask_value_def)
    from Cons.IH[OF this] obtain r' where
      r': "GetExistentialTransformerFn_loop fs ?r1 = Inr r'"
        "map_of r' = (\<lambda>k. if k \<in> sensitive fs then Some (PiiMask_value (map_of ?r1 k)) else map_of ?r1 k)"
      by blast
    have "map_of r' = (\<lambda>k. if k \<in> sensitive (f # fs) then Some (PiiMask_value (map_of r k)) else map_of r k)"
      unfolding r'(2) using True
      by (auto simp: fun_eq_iff update_conv' sensitive_Cons PiiMask_value_twice)
    with step r'(1) show ?thesis by simp
  qed
qed

lemma GetExistentialTransformerFn_loop_panics:
  "s \<in> sensitive fs \<Longrightarrow> map_of r s = Some VNil
   \<Longrightarrow> GetExistentialTransformerFn_loop fs r = Inl (Panic ''reflect: Zero(nil)'')"
proof (induction fs arbitrary: r)
  case Nil
  then show ?case by (simp add: sensitive_def)
next
  case (Cons f fs)
  show ?case
  proof (cases "PII f")
    case False
    with Cons show ?thesis by (simp add: sensitive_Cons)
  next
    case True
    show ?thesis
    proof (cases "map_of r (Field.Source f)")
      case None
      with Cons.prems True have "s \<in> sensitive fs" and "s \<noteq> Field.Source f"
        by (auto simp: sensitive_Cons)
      then show ?thesis
        using Cons.IH[of "AList.update (Field.Source f) (VBool False) r"] Cons.prems(2) True None
        by (simp add: update_conv')
    next
      case (Some v)
      show ?thesis
      proof (cases "v = VNil")
        case True
        then show ?thesis using Some \<open>PII f\<close> by simp
      next
        case False
        with Cons.prems Some \<open>PII f\<close> have "s \<in> sensitive fs" and "s \<noteq> Field.Source f"
          by (auto simp: sensitive_Cons)
        then show ?thesis
          using Cons.IH[of "AList.update (Field.Source f) (VBool (\<not> is_default v)) r"]
            Cons.prems(2) \<open>PII f\<close> Some False
          by (simp add: update_conv' IsZeroOfUnderlyingType_default)
      qed
    qed
  qed
qed

text \<open>
  The existential transformer on the rows without \<^verbatim>\<open>nil\<close> at a sensitive source path:
  it returns no error, the booleans of the spec, and the other keys untouched.
\<close>

lemma GetExistentialTransformerFn_masks:
  assumes "\<forall>s\<in>sensitive (Fields t). map_of r s \<noteq> Some VNil"
  shows "\<exists>r'. GetExistentialTransformerFn t r = Inr (r', None)
           \<and> (\<forall>s\<in>sensitive (Fields t). map_of r' s = Some (PiiMask_value (map_of r s)))
           \<and> (\<forall>k. k \<notin> sensitive (Fields t) \<longrightarrow> map_of r' k = map_of r k)"
  using GetExistentialTransformerFn_loop_masks[OF assms]
  by (auto simp: GetExistentialTransformerFn_def)

text \<open>
  C4. The existential transformer does not give a boolean for every row: a sensitive
  field that is present with the value \<^verbatim>\<open>nil\<close> (a null of the document) makes
  \<^verbatim>\<open>reflect.Zero\<close> panic, in the transformer and so in \<^verbatim>\<open>exportData\<close>. On the same
  table, the fields that are absent, \<^verbatim>\<open>0\<close>, empty or not the default are masked as
  the claim says.
\<close>

theorem GetExistentialTransformerFn_nil_panics:
  "GetExistentialTransformerFn scenario_table [(''a.b'', VInt 5), (''a.c'', VNil)]
     = Inl (Panic ''reflect: Zero(nil)'')
   \<and> exportData js [[(''a'', VMap [(''b'', VInt 5), (''c'', VNil)])]] scenario_table sink ts
     = Inl (Panic ''reflect: Zero(nil)'')
   \<and> GetExistentialTransformerFn scenario_table [(''a.b'', VInt 5)]
     = Inr ([(''a.b'', VInt 5), (''a.c'', VBool False)], None)
   \<and> GetExistentialTransformerFn scenario_table [(''a.b'', VInt 5), (''a.c'', VInt 0)]
     = Inr ([(''a.b'', VInt 5), (''a.c'', VBool False)], None)
   \<and> GetExistentialTransformerFn scenario_table [(''a.b'', VInt 5), (''a.c'', VStr '''')]
     = Inr ([(''a.b'', VInt 5), (''a.c'', VBool False)], None)
   \<and> GetExistentialTransformerFn scenario_table [(''a.b'', VInt 5), (''a.c'', VStr ''s'')]
     = Inr ([(''a.b'', VInt 5), (''a.c'', VBool True)], None)"
  by (simp add: GetExistentialTransformerFn_def scenario_table_def exportData_def
      exportData_stages_def Map_stage_def Flattener_def split: option.split)

section \<open>The stages of exportData\<close>

lemma exportData_stages_None:
  "exportData_stages js table ts d = Inr (r, x) \<Longrightarrow> x = None"
  by (auto simp: exportData_stages_def Map_stage_def Flattener_def GetExistentialTransformerFn_def
      Fieldmap_def GetPopulateDateFn_def split: sum.splits option.splits prod.splits)

lemma exportData_rows_all:
  assumes "\<And>d r x. stages d = Inr (r, x) \<Longrightarrow> x = None"
  shows "exportData_rows stages source rows out = Inr ((n, e), out')
         \<Longrightarrow> n = rows + length source \<and> e = None
             \<and> (\<exists>new. out' = out @ new \<and> list_all2 (\<lambda>d r. stages d = Inr (r, None)) source new)"
proof (induction source arbitrary: rows out)
  case Nil
  then show ?case by simp
next
  case (Cons d source)
  from Cons.prems obtain d' where d': "stages d = Inr (d', None)"
    and rest: "exportData_rows stages source (rows + 1) (out @ [d']) = Inr ((n, e), out')"
    using assms by (fastforce split: sum.splits option.splits prod.splits)
  from Cons.IH[OF rest] obtain new where
    "n = rows + 1 + length source" "e = None" "out' = (out @ [d']) @ new"
    "list_all2 (\<lambda>d r. stages d = Inr (r, None)) source new"
    by blast
  then show ?case
    using d' by (auto intro!: exI[of _ "d' # new"])
qed

lemma exportData_rows_stages:
  "exportData_rows (exportData_stages js table ts) source 0 [] = Inr ((n, e), out)
   \<Longrightarrow> n = length source \<and> e = None
       \<and> list_all2 (\<lambda>d r. exportData_stages js table ts d = Inr (r, None)) source out"
  using exportData_rows_all[of "exportData_stages js table ts" source 0 "[]" n e out,
      OF exportData_stages_None]
  by auto

text \<open>A call that returns no error has counted and written every row of its source.\<close>

lemma exportData_result_None:
  assumes "exportData js source table sink ts = Inr ((n, None), out)"
  shows "n = length source
         \<and> list_all2 (\<lambda>d r. exportData_stages js table ts d = Inr (r, None)) source out"
proof (cases sink)
  case None
  with assms exportData_rows_stages[of js table ts source n None out] show ?thesis
    by (simp add: exportData_def)
next
  case (Some t)
  obtain w k msg where t: "t = (w, k, msg)"
    by (cases t)
  let ?src = "take (max (w + 1) k) source"
  from assms Some t have
    rows: "exportData_rows (exportData_stages js table ts) ?src 0 [] = Inr ((n, None), out)"
    and w: "\<not> w < length out"
    by (auto simp: exportData_def split: sum.splits prod.splits if_splits)
  from exportData_rows_stages[OF rows] have n: "n = length ?src"
    and l: "list_all2 (\<lambda>d r. exportData_stages js table ts d = Inr (r, None)) ?src out"
    by simp_all
  from list_all2_lengthD[OF l] have "length out = length ?src"
    by simp
  with w have "length source \<le> w"
    by (simp add: min_def split: if_splits)
  then have "?src = source"
    by simp
  with n l show ?thesis
    by simp
qed

text \<open>
  A call that returns an error returns the error of the sink; it has counted more
  rows than it has written, no more than its source holds, and what it has written
  are the first rows of the source after the four stages.
\<close>

lemma exportData_result_Some:
  assumes "exportData js source table sink ts = Inr ((n, Some m), out)"
  shows "(\<exists>w k. sink = Some (w, k, m) \<and> length out = w)
         \<and> length out < n \<and> n \<le> length source
         \<and> list_all2 (\<lambda>d r. exportData_stages js table ts d = Inr (r, None))
              (take (length out) source) out"
proof (cases sink)
  case None
  with assms exportData_rows_stages[of js table ts source n "Some m" out] show ?thesis
    by (simp add: exportData_def)
next
  case (Some t)
  obtain w k msg where t: "t = (w, k, msg)"
    by (cases t)
  let ?src = "take (max (w + 1) k) source"
  obtain x out' where
    rows: "exportData_rows (exportData_stages js table ts) ?src 0 [] = Inr ((n, x), out')"
    using assms Some t
    by (auto simp: exportData_def split: sum.splits prod.splits if_splits)
  from exportData_rows_stages[OF rows] have n: "n = length ?src" and x: "x = None"
    and l: "list_all2 (\<lambda>d r. exportData_stages js table ts d = Inr (r, None)) ?src out'"
    by simp_all
  from assms Some t rows x have w: "w < length out'" and m: "m = msg" and out: "out = take w out'"
    by (auto simp: exportData_def split: if_splits)
  from list_all2_lengthD[OF l] have len: "length out' = length ?src"
    by simp
  from w out have lo: "length out = w"
    by simp
  from list_all2_takeI[OF l, of w]
  have "list_all2 (\<lambda>d r. exportData_stages js table ts d = Inr (r, None)) (take w ?src) out"
    using out by simp
  moreover have "take w ?src = take w source"
    by (simp add: min_def)
  ultimately show ?thesis
    using Some t m lo n w len by simp
qed

lemma exportData_stages_order:
  "exportData_stages js table ts d =
     (case GetExistentialTransformerFn table (fst (Flattener js d)) of
        Inl p \<Rightarrow> Inl p
      | Inr (r, x) \<Rightarrow>
          Inr (GetPopulateDateFn (DataDateColumn (Meta table)) ts (fst (Fieldmap (FieldMap table) r))))"
  by (auto simp: exportData_stages_def Map_stage_def Flattener_def GetExistentialTransformerFn_def
      Fieldmap_def split: sum.splits option.splits prod.splits)

lemma scenario_Flattener:
  "fst (Flattener js [(''a'', VMap [(''b'', VInt 5), (''c'', VInt 0)])])
       = [(''a.b'', VInt 5), (''a.c'', VInt 0)]"
  by (simp add: Flattener_def)

lemma scenario_Flattener':
  "fst (Flattener js [(''a'', VMap [(''c'', VInt 0), (''b'', VInt 5)])])
       = [(''a.c'', VInt 0), (''a.b'', VInt 5)]"
  by (simp add: Flattener_def)

lemma scenario_PiiMask:
  "GetExistentialTransformerFn scenario_table [(''a.b'', VInt 5), (''a.c'', VInt 0)]
       = Inr ([(''a.b'', VInt 5), (''a.c'', VBool False)], None)"
  by (simp add: GetExistentialTransformerFn_def scenario_table_def)

lemma scenario_PiiMask':
  "GetExistentialTransformerFn scenario_table [(''a.c'', VInt 0), (''a.b'', VInt 5)]
       = Inr ([(''a.c'', VBool False), (''a.b'', VInt 5)], None)"
  by (simp add: GetExistentialTransformerFn_def scenario_table_def)

lemma scenario_FieldMap: "FieldMap scenario_table = [(''a.b'', [''x'']), (''a.c'', [''y''])]"
  by (simp add: FieldMap_def scenario_table_def)

lemma scenario_Fieldmap:
  "Fieldmap [(''a.b'', [''x'']), (''a.c'', [''y''])] [(''a.b'', VInt 5), (''a.c'', VBool False)]
       = ([(''x'', VInt 5), (''y'', VBool False)], None)"
  by (simp add: Fieldmap_def)

lemma scenario_Fieldmap':
  "Fieldmap [(''a.b'', [''x'']), (''a.c'', [''y''])] [(''a.c'', VBool False), (''a.b'', VInt 5)]
       = ([(''x'', VInt 5), (''y'', VBool False)], None)"
  by (simp add: Fieldmap_def)

lemma scenario_date:
  "GetPopulateDateFn ''_data_timestamp'' ''2024-01-01T00:00:00Z'' [(''x'', VInt 5), (''y'', VBool False)]
       = ([(''x'', VInt 5), (''y'', VBool False),
           (''_data_timestamp'', VStr ''2024-01-01T00:00:00Z'')], None)"
  by (simp add: GetPopulateDateFn_def)

lemma scenario_DataDateColumn: "DataDateColumn (Meta scenario_table) = ''_data_timestamp''"
  by (simp add: scenario_table_def)

lemma scenario_stages:
  "exportData_stages js scenario_table ''2024-01-01T00:00:00Z'' [(''a'', VMap [(''b'', VInt 5), (''c'', VInt 0)])]
     = Inr ([(''x'', VInt 5), (''y'', VBool False),
             (''_data_timestamp'', VStr ''2024-01-01T00:00:00Z'')], None)"
  by (simp only: exportData_stages_order scenario_Flattener scenario_PiiMask scenario_FieldMap
      scenario_Fieldmap scenario_date scenario_DataDateColumn sum.case prod.case fst_conv)

lemma scenario_stages':
  "exportData_stages js scenario_table ''2024-01-01T00:00:00Z'' [(''a'', VMap [(''c'', VInt 0), (''b'', VInt 5)])]
     = Inr ([(''x'', VInt 5), (''y'', VBool False),
             (''_data_timestamp'', VStr ''2024-01-01T00:00:00Z'')], None)"
  by (simp only: exportData_stages_order scenario_Flattener' scenario_PiiMask' scenario_FieldMap
      scenario_Fieldmap' scenario_date scenario_DataDateColumn sum.case prod.case fst_conv)

lemma scenario_exportData:
  "exportData js [[(''a'', VMap [(''b'', VInt 5), (''c'', VInt 0)])]] scenario_table None
         ''2024-01-01T00:00:00Z''
       = Inr ((1, None), [[(''x'', VInt 5), (''y'', VBool False),
                           (''_data_timestamp'', VStr ''2024-01-01T00:00:00Z'')]])"
  by (simp add: exportData_def scenario_stages del: One_nat_def)

lemma scenario_exportData':
  "exportData js [[(''a'', VMap [(''c'', VInt 0), (''b'', VInt 5)])]] scenario_table None
         ''2024-01-01T00:00:00Z''
       = Inr ((1, None), [[(''x'', VInt 5), (''y'', VBool False),
                           (''_data_timestamp'', VStr ''2024-01-01T00:00:00Z'')]])"
  by (simp add: exportData_def scenario_stages' del: One_nat_def)

text \<open>
  The worked example three times over, with a sink whose first write fails: the call
  returns the error, has written nothing, and its count is the one, two or three rows
  that the stages have seen.
\<close>

lemma scenario_exportData_sink:
  "exportData js (replicate 3 [(''a'', VMap [(''b'', VInt 5), (''c'', VInt 0)])]) scenario_table
         (Some (0, k, ''broken pipe'')) ''2024-01-01T00:00:00Z''
       = Inr ((min 3 (max 1 k), Some ''broken pipe''), [])"
proof -
  let ?d = "[(''a'', VMap [(''b'', VInt 5), (''c'', VInt 0)])]"
  let ?r = "[(''x'', VInt 5), (''y'', VBool False), (''_data_timestamp'', VStr ''2024-01-01T00:00:00Z'')]"
  have rows: "exportData_rows (exportData_stages js scenario_table ''2024-01-01T00:00:00Z'')
                (replicate i ?d) n out = Inr ((n + i, None), out @ replicate i ?r)" for i n out
    by (induction i arbitrary: n out) (simp_all add: scenario_stages replicate_app_Cons_same)
  have "take (max (0 + 1) k) (replicate 3 ?d) = replicate (min 3 (max 1 k)) ?d"
    by (simp add: min.commute)
  then show ?thesis
    unfolding exportData_def by (simp add: rows del: replicate.simps take_replicate)
qed

text \<open>
  C3. \<^verbatim>\<open>exportData\<close> runs every row through Flatten, the existential transformer, the
  field map over \<^verbatim>\<open>table.FieldMap()\<close> and the date stamp, in this order, and counts
  it. A call that returns no error has counted every row of its source and has
  written, for every row, the row the four stages give. A call that returns an error
  returns the error of the sink; it has written the first rows of the source after
  the four stages, up to the write that failed, and its count is larger than the
  number of rows written and no larger than the source. On the worked example of the
  spec each stage gives the row the spec names and the call writes the row
  \<^verbatim>\<open>{"x":5,"y":false,"_data_timestamp":"2024-01-01T00:00:00Z"}\<close>, in whichever order
  the nested mapping is visited. With a sink whose first write fails, the call on
  three such rows writes nothing and returns the error with a count of one, two or
  three.
\<close>

theorem exportData_five_stages:
  "exportData_stages js table ts d =
     (case GetExistentialTransformerFn table (fst (Flattener js d)) of
        Inl p \<Rightarrow> Inl p
      | Inr (r, x) \<Rightarrow>
          Inr (GetPopulateDateFn (DataDateColumn (Meta table)) ts (fst (Fieldmap (FieldMap table) r))))
   \<and> (\<forall>n out. exportData js source table sink ts = Inr ((n, None), out)
         \<longrightarrow> n = length source
             \<and> list_all2 (\<lambda>d r. exportData_stages js table ts d = Inr (r, None)) source out)
   \<and> (\<forall>n m out. exportData js source table sink ts = Inr ((n, Some m), out)
         \<longrightarrow> (\<exists>w k. sink = Some (w, k, m) \<and> length out = w)
             \<and> length out < n \<and> n \<le> length source
             \<and> list_all2 (\<lambda>d r. exportData_stages js table ts d = Inr (r, None))
                  (take (length out) source) out)
   \<and> fst (Flattener js [(''a'', VMap [(''b'', VInt 5), (''c'', VInt 0)])])
       = [(''a.b'', VInt 5), (''a.c'', VInt 0)]
   \<and> GetExistentialTransformerFn scenario_table [(''a.b'', VInt 5), (''a.c'', VInt 0)]
       = Inr ([(''a.b'', VInt 5), (''a.c'', VBool False)], None)
   \<and> FieldMap scenario_table = [(''a.b'', [''x'']), (''a.c'', [''y''])]
   \<and> Fieldmap (FieldMap scenario_table) [(''a.b'', VInt 5), (''a.c'', VBool False)]
       = ([(''x'', VInt 5), (''y'', VBool False)], None)
   \<and> GetPopulateDateFn ''_data_timestamp'' ''2024-01-01T00:00:00Z'' [(''x'', VInt 5), (''y'', VBool False)]
       = ([(''x'', VInt 5), (''y'', VBool False),
           (''_data_timestamp'', VStr ''2024-01-01T00:00:00Z'')], None)
   \<and> exportData js [[(''a'', VMap [(''b'', VInt 5), (''c'', VInt 0)])]] scenario_table None
         ''2024-01-01T00:00:00Z''
       = Inr ((1, None), [[(''x'', VInt 5), (''y'', VBool False),
                           (''_data_timestamp'', VStr ''2024-01-01T00:00:00Z'')]])
   \<and> exportData js [[(''a'', VMap [(''c'', VInt 0), (''b'', VInt 5)])]] scenario_table None
         ''2024-01-01T00:00:00Z''
       = Inr ((1, None), [[(''x'', VInt 5), (''y'', VBool False),
                           (''_data_timestamp'', VStr ''2024-01-01T00:00:00Z'')]])
   \<and> exportData js (replicate 3 [(''a'', VMap [(''b'', VInt 5), (''c'', VInt 0)])]) scenario_table
         (Some (0, k, ''broken pipe'')) ''2024-01-01T00:00:00Z''
       = Inr ((min 3 (max 1 k), Some ''broken pipe''), [])"
proof (intro conjI allI impI)
  show "exportData_stages js table ts d =
     (case GetExistentialTransformerFn table (fst (Flattener js d)) of
        Inl p \<Rightarrow> Inl p
      | Inr (r, x) \<Rightarrow>
          Inr (GetPopulateDateFn (DataDateColumn (Meta table)) ts (fst (Fieldmap (FieldMap table) r))))"
    by (rule exportData_stages_order)
next
  fix n out
  assume a: "exportData js source table sink ts = Inr ((n, None), out)"
  from exportData_result_None[OF a]
  show "n = length source"
    and "list_all2 (\<lambda>d r. exportData_stages js table ts d = Inr (r, None)) source out"
    by simp_all
next
  fix n m out
  assume a: "exportData js source table sink ts = Inr ((n, Some m), out)"
  from exportData_result_Some[OF a]
  show "\<exists>w k. sink = Some (w, k, m) \<and> length out = w"
    and "length out < n" and "n \<le> length source"
    and "list_all2 (\<lambda>d r. exportData_stages js table ts d = Inr (r, None)) (take (length out) source) out"
    by simp_all
next
  show "Fieldmap (FieldMap scenario_table) [(''a.b'', VInt 5), (''a.c'', VBool False)]
       = ([(''x'', VInt 5), (''y'', VBool False)], None)"
    by (simp only: scenario_FieldMap scenario_Fieldmap)
qed (rule scenario_Flattener scenario_PiiMask scenario_FieldMap scenario_date
      scenario_exportData scenario_exportData' scenario_exportData_sink)+

theorem exportData_five_stages_witness:
  "exportData (\<lambda>v. (''[]'', None)) [[(''a'', VMap [(''b'', VInt 5), (''c'', VInt 0)])]] scenario_table None
      ''2024-01-01T00:00:00Z''
     = Inr ((1, None), [[(''x'', VInt 5), (''y'', VBool False),
                         (''_data_timestamp'', VStr ''2024-01-01T00:00:00Z'')]])
   \<and> (1::nat) = length [[(''a'', VMap [(''b'', VInt 5), (''c'', VInt 0)])]]
   \<and> list_all2 (\<lambda>d r. exportData_stages (\<lambda>v. (''[]'', None)) scenario_table ''2024-01-01T00:00:00Z'' d
                        = Inr (r, None))
       [[(''a'', VMap [(''b'', VInt 5), (''c'', VInt 0)])]]
       [[(''x'', VInt 5), (''y'', VBool False), (''_data_timestamp'', VStr ''2024-01-01T00:00:00Z'')]]
   \<and> exportData (\<lambda>v. (''[]'', None)) (replicate 3 [(''a'', VMap [(''b'', VInt 5), (''c'', VInt 0)])])
        scenario_table (Some (0, 2, ''broken pipe'')) ''2024-01-01T00:00:00Z''
     = Inr ((2, Some ''broken pipe''), [])
   \<and> length ([] :: row list) < 2
   \<and> (2::nat) \<le> length (replicate 3 [(''a'', VMap [(''b'', VInt 5), (''c'', VInt 0)])])"
proof -
  let ?js = "\<lambda>v :: val list. (''[]'', None :: string option)"
  let ?src = "[[(''a'', VMap [(''b'', VInt 5), (''c'', VInt 0)])]]"
  let ?src3 = "replicate 3 [(''a'', VMap [(''b'', VInt 5), (''c'', VInt 0)])]"
  let ?ts = "''2024-01-01T00:00:00Z''"
  note t = exportData_five_stages[where js = ?js and sink = None and source = ?src
      and table = scenario_table and ts = ?ts]
  from t have run: "exportData ?js ?src scenario_table None ?ts
     = Inr ((1, None), [[(''x'', VInt 5), (''y'', VBool False), (''_data_timestamp'', VStr ?ts)]])"
    by blast
  from t have "\<forall>n out. exportData ?js ?src scenario_table None ?ts = Inr ((n, None), out)
         \<longrightarrow> n = length ?src
             \<and> list_all2 (\<lambda>d r. exportData_stages ?js scenario_table ?ts d = Inr (r, None)) ?src out"
    by blast
  with run have l: "list_all2 (\<lambda>d r. exportData_stages ?js scenario_table ?ts d = Inr (r, None)) ?src
      [[(''x'', VInt 5), (''y'', VBool False), (''_data_timestamp'', VStr ?ts)]]"
    by blast
  note t3 = exportData_five_stages[where js = ?js and sink = "Some (0, 2, ''broken pipe'')"
      and source = ?src3 and table = scenario_table and ts = ?ts and k = 2]
  from t3 have run3: "exportData ?js ?src3 scenario_table (Some (0, 2, ''broken pipe'')) ?ts
     = Inr ((min 3 (max 1 2), Some ''broken pipe''), [])"
    by blast
  then have run3': "exportData ?js ?src3 scenario_table (Some (0, 2, ''broken pipe'')) ?ts
     = Inr ((2, Some ''broken pipe''), [])"
    by simp
  from t3 have "\<forall>n m out. exportData ?js ?src3 scenario_table (Some (0, 2, ''broken pipe'')) ?ts
           = Inr ((n, Some m), out)
         \<longrightarrow> length out < n \<and> n \<le> length ?src3"
    by blast
  with run3' have b: "length ([] :: row list) < 2 \<and> (2::nat) \<le> length ?src3"
    by blast
  from run l run3' b show ?thesis
    by simp
qed

section \<open>File names\<close>

lemma Itoa_digit: "n < 10 \<Longrightarrow> Itoa n = [''0123456789'' ! n]"
  by (simp add: Itoa.simps)

lemma Itoa_step: "10 \<le> n \<Longrightarrow> Itoa n = Itoa (n div 10) @ [''0123456789'' ! (n mod 10)]"
  by (subst Itoa.simps) simp

lemma Itoa_not_empty: "Itoa n \<noteq> ''''"
  by (subst Itoa.simps) simp

lemma length_Itoa_2: "10 \<le> n \<Longrightarrow> n < 100 \<Longrightarrow> length (Itoa n) = 2"
  by (simp add: Itoa_step Itoa_digit)

lemma length_Itoa_3: "100 \<le> n \<Longrightarrow> n < 1000 \<Longrightarrow> length (Itoa n) = 3"
  by (simp add: Itoa_step[of n] length_Itoa_2)

lemma length_Itoa_4: "1000 \<le> n \<Longrightarrow> n < 10000 \<Longrightarrow> length (Itoa n) = 4"
  by (simp add: Itoa_step[of n] length_Itoa_3)

lemma length_Sprintf_02d: "n < 100 \<Longrightarrow> length (Sprintf_02d n) = 2"
  by (simp add: Sprintf_02d_def Itoa_digit length_Itoa_2)

lemma length_Sprintf_02d_year: "1000 \<le> n \<Longrightarrow> n < 10000 \<Longrightarrow> length (Sprintf_02d n) = 4"
  by (simp add: Sprintf_02d_def length_Itoa_4)

lemma formatFilename_parsed:
  "parse ts = Inr t \<Longrightarrow>
   formatFilename parse ts name fileIndex ext =
     ''mongo/'' @ name @ ''/_data_timestamp_year='' @ Sprintf_02d (Year t)
     @ ''/_data_timestamp_month='' @ Sprintf_02d (Month t)
     @ ''/_data_timestamp_day='' @ Sprintf_02d (Day t)
     @ ''/mongo_'' @ name @ ''_'' @ ts @ (if fileIndex = '''' then '''' else ''_'' @ fileIndex) @ ext"
  by (simp add: formatFilename_def)

text \<open>
  C6. The path of a shard, as \<^verbatim>\<open>formatFilename\<close> builds it with the extension
  \<^verbatim>\<open>.json.gz\<close>, is the pattern of the spec behind the directory \<^verbatim>\<open>mongo/\<close>: collection
  and destination are the one name given, year, month and day are those of the parsed
  time stamp, printed with two digits at least (four for a year of four digits), and
  the suffix with the index is there exactly when the index is not the empty string.
  \<^verbatim>\<open>main\<close> gives every shard its index in decimal, which is never empty.
\<close>

theorem formatFilename_shard_path:
  "(\<forall>t. parse ts = Inr t \<longrightarrow>
       formatFilename parse ts name fileIndex ''.json.gz''
         = ''mongo/'' @ spec_shard_path name (Sprintf_02d (Year t)) (Sprintf_02d (Month t))
             (Sprintf_02d (Day t)) name ts (if fileIndex = '''' then None else Some fileIndex)
       \<and> (1000 \<le> Year t \<and> Year t < 10000 \<longrightarrow> length (Sprintf_02d (Year t)) = 4)
       \<and> (Month t < 100 \<longrightarrow> length (Sprintf_02d (Month t)) = 2)
       \<and> (Day t < 100 \<longrightarrow> length (Sprintf_02d (Day t)) = 2))
   \<and> outputName e i
       = formatFilename (time_Parse e) (timestamp e) (Table.Destination (sourceTable e)) (Itoa i) ''.json.gz''
   \<and> Itoa i \<noteq> ''''"
  by (auto simp: formatFilename_parsed spec_shard_path_def length_Sprintf_02d
      length_Sprintf_02d_year outputName_def Itoa_not_empty)

lemma Sprintf_02d_2024: "Sprintf_02d 2024 = ''2024''"
  by (simp add: Sprintf_02d_def Itoa.simps)

lemma Sprintf_02d_1: "Sprintf_02d 1 = ''01''" "Sprintf_02d (Suc 0) = ''01''"
  by (simp_all add: Sprintf_02d_def Itoa.simps)

lemma Itoa_0: "Itoa 0 = ''0''"
  by (simp add: Itoa.simps)

lemma Itoa_1: "Itoa 1 = ''1''"
  by (simp add: Itoa.simps)

theorem formatFilename_shard_path_witness:
  "(\<lambda>s. Inr \<lparr>Year = 2024, Month = 1, Day = 1\<rparr> :: string + Time) ''2024-01-01T00:00:00Z''
     = Inr \<lparr>Year = 2024, Month = 1, Day = 1\<rparr>
   \<and> formatFilename (\<lambda>s. Inr \<lparr>Year = 2024, Month = 1, Day = 1\<rparr>) ''2024-01-01T00:00:00Z''
        ''students'' ''0'' ''.json.gz''
     = ''mongo/students/_data_timestamp_year=2024/_data_timestamp_month=01/_data_timestamp_day=01/mongo_students_2024-01-01T00:00:00Z_0.json.gz''
   \<and> (1000::nat) \<le> 2024 \<and> (2024::nat) < 10000 \<and> length (Sprintf_02d 2024) = 4
   \<and> (1::nat) < 100 \<and> length (Sprintf_02d 1) = 2"
  using formatFilename_shard_path[where parse = "\<lambda>s. Inr \<lparr>Year = 2024, Month = 1, Day = 1\<rparr>"
      and ts = "''2024-01-01T00:00:00Z''" and name = "''students''" and fileIndex = "''0''"
      and e = scenario_run and i = 0]
  by (simp add: spec_shard_path_def Sprintf_02d_2024 Sprintf_02d_1)

text \<open>
  The claim C6 as it is written fails: the path begins with \<^verbatim>\<open>mongo/\<close> and then the
  name of the collection, so it is not the path of the pattern and does not begin with
  the name of the collection. And for a time stamp that \<^verbatim>\<open>time.Parse\<close> rejects, year,
  month and day are those of the zero time and not of the time stamp.
\<close>

theorem formatFilename_no_mongo_prefix_counterexample:
  "formatFilename (\<lambda>s. Inr \<lparr>Year = 2024, Month = 1, Day = 1\<rparr>) ''2024-01-01T00:00:00Z''
        ''students'' ''0'' ''.json.gz''
     = ''mongo/students/_data_timestamp_year=2024/_data_timestamp_month=01/_data_timestamp_day=01/mongo_students_2024-01-01T00:00:00Z_0.json.gz''
   \<and> formatFilename (\<lambda>s. Inr \<lparr>Year = 2024, Month = 1, Day = 1\<rparr>) ''2024-01-01T00:00:00Z''
        ''students'' ''0'' ''.json.gz''
     \<noteq> spec_shard_path ''students'' ''2024'' ''01'' ''01'' ''students'' ''2024-01-01T00:00:00Z'' (Some ''0'')
   \<and> \<not> prefix ''students/'' (formatFilename (\<lambda>s. Inr \<lparr>Year = 2024, Month = 1, Day = 1\<rparr>)
        ''2024-01-01T00:00:00Z'' ''students'' ''0'' ''.json.gz'')
   \<and> formatFilename (\<lambda>s. Inl ''parsing time: cannot parse'') ''yesterday'' ''students'' ''0'' ''.json.gz''
     = ''mongo/students/_data_timestamp_year=01/_data_timestamp_month=01/_data_timestamp_day=01/mongo_students_yesterday_0.json.gz''"
  by (simp add: formatFilename_def spec_shard_path_def Sprintf_02d_2024 Sprintf_02d_1)

section \<open>The manifest\<close>

lemma rune_len_ascii: "in_range c 0 0x7F \<Longrightarrow> rune_len (c # s) = 1"
  by (simp add: rune_len_def)

lemma ToValidUTF8_Nil [simp]: "ToValidUTF8 [] = []"
  by (simp add: ToValidUTF8.simps)

lemma ToValidUTF8_ascii_Cons: "in_range c 0 0x7F \<Longrightarrow> ToValidUTF8 (c # s) = c # ToValidUTF8 s"
  by (subst ToValidUTF8.simps) (simp add: rune_len_ascii)

lemma ToValidUTF8_ascii_append:
  "list_all (\<lambda>c. in_range c 0 0x7F) a \<Longrightarrow> ToValidUTF8 (a @ b) = a @ ToValidUTF8 b"
  by (induction a) (simp_all add: ToValidUTF8_ascii_Cons)

lemma ToValidUTF8_invalid_Cons:
  "rune_len (c # s) = 0 \<Longrightarrow> ToValidUTF8 (c # s) = [CHR 0xEF, CHR 0xBF, CHR 0xBD] @ ToValidUTF8 s"
  by (subst ToValidUTF8.simps) simp

lemma ValidString_Nil [simp]: "ValidString []"
  by (simp add: ValidString.simps)

lemma ValidString_ascii_Cons: "in_range c 0 0x7F \<Longrightarrow> ValidString (c # s) = ValidString s"
  by (subst ValidString.simps) (simp add: rune_len_ascii)

lemma ValidString_ascii: "list_all (\<lambda>c. in_range c 0 0x7F) s \<Longrightarrow> ValidString s"
  by (induction s) (simp_all add: ValidString_ascii_Cons)

text \<open>What \<^verbatim>\<open>encoding/json\<close> writes for a string is the string itself exactly when it is UTF-8.\<close>

lemma ToValidUTF8_valid: "ValidString s \<Longrightarrow> ToValidUTF8 s = s"
proof (induction s rule: ToValidUTF8.induct)
  case (1 s)
  show ?case
  proof (cases "s = []")
    case True
    then show ?thesis by simp
  next
    case False
    from "1.prems" have "if s = [] then True else if rune_len s = 0 then False
        else ValidString (drop (rune_len s) s)"
      by (subst (asm) ValidString.simps)
    with False have r: "rune_len s \<noteq> 0" and v: "ValidString (drop (rune_len s) s)"
      by (simp_all split: if_splits)
    from "1.IH"(2)[OF False r v] False r show ?thesis
      by (subst ToValidUTF8.simps) simp
  qed
qed

lemma length_ToValidUTF8: "length s \<le> length (ToValidUTF8 s)"
proof (induction s rule: ToValidUTF8.induct)
  case (1 s)
  show ?case
  proof (cases "s = []")
    case True
    then show ?thesis by simp
  next
    case False
    show ?thesis
    proof (cases "rune_len s = 0")
      case True
      from "1.IH"(1)[OF False True] False True show ?thesis
        by (subst ToValidUTF8.simps) simp
    next
      case r: False
      from False r have "length (ToValidUTF8 s)
          = min (rune_len s) (length s) + length (ToValidUTF8 (drop (rune_len s) s))"
        by (subst ToValidUTF8.simps) simp
      with "1.IH"(2)[OF False r] show ?thesis
        by simp
    qed
  qed
qed

lemma length_ToValidUTF8_invalid: "\<not> ValidString s \<Longrightarrow> length s < length (ToValidUTF8 s)"
proof (induction s rule: ToValidUTF8.induct)
  case (1 s)
  show ?case
  proof (cases "s = []")
    case True
    with "1.prems" show ?thesis by simp
  next
    case False
    show ?thesis
    proof (cases "rune_len s = 0")
      case True
      from length_ToValidUTF8[of "tl s"] False True show ?thesis
        by (subst ToValidUTF8.simps) simp
    next
      case r: False
      from "1.prems" False r have nv: "\<not> ValidString (drop (rune_len s) s)"
        by (subst (asm) ValidString.simps) simp
      then have "drop (rune_len s) s \<noteq> []"
        by auto
      then have lt: "rune_len s < length s"
        by simp
      from False r have "length (ToValidUTF8 s)
          = min (rune_len s) (length s) + length (ToValidUTF8 (drop (rune_len s) s))"
        by (subst ToValidUTF8.simps) simp
      with "1.IH"(2)[OF False r nv] lt show ?thesis
        by simp
    qed
  qed
qed

lemma ToValidUTF8_fixed: "ToValidUTF8 s = s \<longleftrightarrow> ValidString s"
proof
  assume eq: "ToValidUTF8 s = s"
  show "ValidString s"
  proof (rule ccontr)
    assume "\<not> ValidString s"
    from length_ToValidUTF8_invalid[OF this] eq show False
      by simp
  qed
next
  assume "ValidString s"
  then show "ToValidUTF8 s = s"
    by (rule ToValidUTF8_valid)
qed

lemma createManifest_loop_entries:
  "createManifest_loop bucket fns (Some es)
     = Some (es @ map (\<lambda>fn. \<lparr>url = ''s3://'' @ bucket @ ''/'' @ fn, mandatory = True\<rparr>) fns)"
  by (induction fns arbitrary: es) (simp_all add: append_Entry_def)

lemma createManifest_loop_nil:
  "fns \<noteq> [] \<Longrightarrow> createManifest_loop bucket fns None
     = Some (map (\<lambda>fn. \<lparr>url = ''s3://'' @ bucket @ ''/'' @ fn, mandatory = True\<rparr>) fns)"
  by (cases fns) (simp_all add: append_Entry_def createManifest_loop_entries)

lemma createManifest_nonempty:
  "fns \<noteq> [] \<Longrightarrow> createManifest bucket fns
     = Inr (JObj [(''entries'',
                   JArr (map (\<lambda>fn. JObj [(''mandatory'', JBool True),
                                           (''url'', JStr (ToValidUTF8 (''s3://'' @ bucket @ ''/'' @ fn)))])
                          fns))])"
  by (simp add: createManifest_def createManifest_loop_nil json_Marshal_def
      json_Marshal_Entry_def comp_def)

lemma createManifest_spec:
  assumes "fns \<noteq> []"
  shows "createManifest bucket fns = Inr (spec_manifest bucket fns)
         \<longleftrightarrow> (\<forall>fn\<in>set fns. ValidString (''s3://'' @ bucket @ ''/'' @ fn))"
proof -
  have "createManifest bucket fns = Inr (spec_manifest bucket fns)
        \<longleftrightarrow> map (\<lambda>fn. JObj [(''mandatory'', JBool True),
                            (''url'', JStr (ToValidUTF8 (''s3://'' @ bucket @ ''/'' @ fn)))]) fns
            = map (\<lambda>fn. JObj [(''mandatory'', JBool True),
                              (''url'', JStr (''s3://'' @ bucket @ ''/'' @ fn))]) fns"
    unfolding createManifest_nonempty[OF assms] spec_manifest_def
    by (simp only: sum.inject json.inject list.inject prod.inject simp_thms)
  also have "\<dots> \<longleftrightarrow> (\<forall>fn\<in>set fns. ToValidUTF8 (''s3://'' @ bucket @ ''/'' @ fn)
                                     = ''s3://'' @ bucket @ ''/'' @ fn)"
    unfolding map_eq_conv
    by (simp only: json.inject list.inject prod.inject simp_thms)
  finally show ?thesis
    unfolding ToValidUTF8_fixed .
qed

lemma createManifest_empty: "createManifest bucket [] = Inr (JObj [(''entries'', JNull)])"
  by (simp add: createManifest_def json_Marshal_def)

lemma manifestFilename_parsed:
  "time_Parse e (timestamp e) = Inr t \<Longrightarrow>
   manifestFilename e =
     ''mongo/'' @ Table.Destination (sourceTable e)
     @ ''/_data_timestamp_year='' @ Sprintf_02d (Year t)
     @ ''/_data_timestamp_month='' @ Sprintf_02d (Month t)
     @ ''/_data_timestamp_day='' @ Sprintf_02d (Day t)
     @ ''/mongo_'' @ Table.Destination (sourceTable e) @ ''_'' @ timestamp e @ ''.manifest''"
  by (simp add: manifestFilename_def formatFilename_parsed)

lemma manifestFilename_name:
  "\<exists>dir. manifestFilename e
     = dir @ ''/mongo_'' @ Table.Destination (sourceTable e) @ ''_'' @ timestamp e @ ''.manifest''"
proof -
  obtain t where t: "t = (case time_Parse e (timestamp e) of
                 Inl x \<Rightarrow> \<lparr>Year = 1, Month = 1, Day = 1\<rparr>
               | Inr t \<Rightarrow> t)"
    by simp
  let ?dir = "''mongo/'' @ Table.Destination (sourceTable e)
        @ ''/_data_timestamp_year='' @ Sprintf_02d (Year t)
        @ ''/_data_timestamp_month='' @ Sprintf_02d (Month t)
        @ ''/_data_timestamp_day='' @ Sprintf_02d (Day t)"
  have "manifestFilename e
     = ?dir @ ''/mongo_'' @ Table.Destination (sourceTable e) @ ''_'' @ timestamp e @ ''.manifest''"
    unfolding manifestFilename_def formatFilename_def Let_def t[symmetric]
    by simp
  then show ?thesis
    by (rule exI[of _ ?dir])
qed

section \<open>Fan-out, reconciliation and publication\<close>

lemma outputName_not_manifest: "outputName e i \<noteq> manifestFilename e"
  by (simp add: outputName_def manifestFilename_def formatFilename_def Let_def Itoa_not_empty)

lemma shard_object_not_manifest: "shard_object e ob \<Longrightarrow> \<not> manifest_object e ob"
  by (auto simp: shard_object_def manifest_object_def outputName_not_manifest)

lemma manifest_object_iff:
  "manifest_object e ob \<longleftrightarrow> fst (snd ob) = manifestFilename e \<or> (\<exists>j. snd (snd ob) = BytesReader j)"
  by (auto simp: manifest_object_def split: prod.splits reader.splits)

lemma uploadFile_cases:
  "uploadFile s rd bucket name objs = (x, objs') \<Longrightarrow>
     (x = None \<and> \<not> isl (region s) \<and> upload s = None \<and> objs' = objs @ [(bucket, name, rd)])
     \<or> ((\<exists>m. x = Some (Fatal m)) \<and> (isl (region s) \<or> upload s \<noteq> None) \<and> objs' = objs)"
  by (auto simp: uploadFile_def split: sum.splits option.splits)

lemma main_shard_None:
  assumes "main_shard e sh st = (None, st')"
  shows "\<exists>out. exportData (json_Marshal_array e) (claimed sh) (sourceTable e) (sink_err sh) (timestamp e)
             = Inr ((length (claimed sh), None), out)
           \<and> \<not> isl (region (s3 sh)) \<and> upload (s3 sh) = None
           \<and> totalSummedRows st' = totalSummedRows st + of_nat (length (claimed sh))
           \<and> objects st' = objects st @ [(Bucket e, outputName e (index sh), Pipe out)]"
proof -
  from assms have e0: "err e = None"
    by (auto simp: main_shard_def split: if_splits)
  from assms e0 obtain count out where
    ex: "exportData (json_Marshal_array e) (claimed sh) (sourceTable e) (sink_err sh) (timestamp e)
           = Inr ((count, None), out)"
    by (auto simp: main_shard_def split: sum.splits option.splits prod.splits)
  from exportData_result_None[OF ex] have c: "count = length (claimed sh)"
    by simp
  from assms e0 ex obtain objs where
    up: "uploadFile (s3 sh) (Pipe out) (Bucket e) (outputName e (index sh)) (objects st) = (None, objs)"
    and st': "st' = st\<lparr>totalSummedRows := totalSummedRows st + of_nat count, objects := objs\<rparr>"
    by (auto simp: main_shard_def Let_def split: prod.splits)
  from uploadFile_cases[OF up] st' ex c show ?thesis
    by auto
qed

lemma main_shard_Some:
  assumes "main_shard e sh st = (Some x, st')"
  shows "objects st' = objects st
         \<and> ((\<exists>m. x = Fatal m)
             \<or> exportData (json_Marshal_array e) (claimed sh) (sourceTable e) (sink_err sh) (timestamp e)
                 = Inl x)"
  using assms
  by (auto simp: main_shard_def Let_def split: if_splits sum.splits option.splits prod.splits
      dest!: uploadFile_cases)

lemma shard_count_written:
  "exportData (json_Marshal_array e) (claimed sh) (sourceTable e) (sink_err sh) (timestamp e)
     = Inr ((length (claimed sh), x), out)
   \<Longrightarrow> shard_count e sh = of_nat (length (claimed sh))"
  by (simp add: shard_count_def)

lemma main_shards_None:
  "main_shards e shs st = (None, st') \<Longrightarrow>
     totalSummedRows st' = totalSummedRows st + sum_list (map (shard_count e) shs)
     \<and> (\<forall>sh\<in>set shs. shard_count e sh = of_nat (length (claimed sh))
           \<and> \<not> isl (region (s3 sh)) \<and> upload (s3 sh) = None)
     \<and> (\<exists>new. objects st' = objects st @ new \<and> list_all (shard_object e) new
           \<and> map (\<lambda>ob. fst (snd ob)) new = map (\<lambda>sh. outputName e (index sh)) shs)"
proof (induction shs arbitrary: st)
  case Nil
  then show ?case by simp
next
  case (Cons sh shs)
  from Cons.prems obtain st1 where
    one: "main_shard e sh st = (None, st1)" and rest: "main_shards e shs st1 = (None, st')"
    by (auto split: prod.splits option.splits)
  from main_shard_None[OF one] obtain out where
    o: "exportData (json_Marshal_array e) (claimed sh) (sourceTable e) (sink_err sh) (timestamp e)
          = Inr ((length (claimed sh), None), out)"
      "\<not> isl (region (s3 sh))" "upload (s3 sh) = None"
      "totalSummedRows st1 = totalSummedRows st + of_nat (length (claimed sh))"
      "objects st1 = objects st @ [(Bucket e, outputName e (index sh), Pipe out)]"
    by blast
  from Cons.IH[OF rest] obtain new where
    r: "totalSummedRows st' = totalSummedRows st1 + sum_list (map (shard_count e) shs)"
      "\<forall>sh\<in>set shs. shard_count e sh = of_nat (length (claimed sh))
           \<and> \<not> isl (region (s3 sh)) \<and> upload (s3 sh) = None"
      "objects st' = objects st1 @ new" "list_all (shard_object e) new"
      "map (\<lambda>ob. fst (snd ob)) new = map (\<lambda>sh. outputName e (index sh)) shs"
    by blast
  have so: "shard_object e (Bucket e, outputName e (index sh), Pipe out)"
    by (auto simp: shard_object_def)
  show ?case
    using o r so shard_count_written[OF o(1)]
    by (auto intro!: exI[of _ "(Bucket e, outputName e (index sh), Pipe out) # new"])
qed

lemma main_shards_Some:
  "main_shards e shs st = (Some x, st') \<Longrightarrow>
     (\<exists>new. objects st' = objects st @ new \<and> list_all (shard_object e) new)
     \<and> ((\<exists>m. x = Fatal m)
         \<or> (\<exists>sh\<in>set shs. exportData (json_Marshal_array e) (claimed sh) (sourceTable e) (sink_err sh)
                              (timestamp e) = Inl x))"
proof (induction shs arbitrary: st)
  case Nil
  then show ?case by simp
next
  case (Cons sh shs)
  show ?case
  proof (cases "fst (main_shard e sh st)")
    case (Some y)
    with Cons.prems have one: "main_shard e sh st = (Some x, st')"
      by (auto split: prod.splits option.splits)
    from main_shard_Some[OF one] show ?thesis
      by auto
  next
    case None
    with Cons.prems obtain st1 where
      one: "main_shard e sh st = (None, st1)" and rest: "main_shards e shs st1 = (Some x, st')"
      by (auto split: prod.splits option.splits)
    from main_shard_None[OF one] obtain out where
      o: "objects st1 = objects st @ [(Bucket e, outputName e (index sh), Pipe out)]"
      by blast
    have so: "shard_object e (Bucket e, outputName e (index sh), Pipe out)"
      by (auto simp: shard_object_def)
    from Cons.IH[OF rest] obtain new where
      r: "objects st' = objects st1 @ new" "list_all (shard_object e) new"
        "(\<exists>m. x = Fatal m) \<or> (\<exists>sh\<in>set shs. exportData (json_Marshal_array e) (claimed sh)
            (sourceTable e) (sink_err sh) (timestamp e) = Inl x)"
      by blast
    show ?thesis
      using o r so
      by (auto intro!: exI[of _ "(Bucket e, outputName e (index sh), Pipe out) # new"])
  qed
qed

lemma createManifest_Inr: "\<exists>j. createManifest bucket fns = Inr j"
  by (simp add: createManifest_def json_Marshal_def)

text \<open>
  The part of \<^verbatim>\<open>main\<close> from the counters on: a run of it that ends well has reconciled
  the counters, every shard has counted the rows it received and was stored, and the
  manifest is the last object stored.
\<close>

lemma main_fanout_success:
  assumes "fst (main_fanout e objs) = Inr p"
  shows "sum_list (map (shard_count e) (shards e)) = totalMongoRows e
         \<and> (\<forall>sh\<in>set (shards e). shard_count e sh = of_nat (length (claimed sh))
               \<and> \<not> isl (region (s3 sh)) \<and> upload (s3 sh) = None)
         \<and> p = (Table.Destination (sourceTable e), confFileName e, timestamp e)
         \<and> (\<exists>new j. snd (main_fanout e objs)
                       = objs @ new @ [(Bucket e, manifestFilename e, BytesReader j)]
               \<and> list_all (shard_object e) new
               \<and> map (\<lambda>ob. fst (snd ob)) new = map (\<lambda>sh. outputName e (index sh)) (shards e)
               \<and> createManifest (Bucket e) (map (outputName e) [0..<length (shards e)]) = Inr j)"
proof -
  obtain x st where ms: "main_shards e (shards e) \<lparr>totalSummedRows = 0, objects = objs\<rparr> = (x, st)"
    by (cases "main_shards e (shards e) \<lparr>totalSummedRows = 0, objects = objs\<rparr>")
  from assms ms have x: "x = None"
    by (cases x) (auto simp: main_fanout_def Let_def)
  from assms ms x have eq: "totalSummedRows st = totalMongoRows e"
    by (auto simp: main_fanout_def Let_def split: if_splits)
  obtain j where j: "createManifest (Bucket e) (map (outputName e) [0..<length (shards e)]) = Inr j"
    using createManifest_Inr by blast
  obtain y objs' where up: "uploadFile (manifest_s3 e) (BytesReader j) (Bucket e)
      (manifestFilename e) (objects st) = (y, objs')"
    by (cases "uploadFile (manifest_s3 e) (BytesReader j) (Bucket e) (manifestFilename e) (objects st)")
  from assms ms x eq j up have y: "y = None"
    and res: "main_fanout e objs = (Inr (Table.Destination (sourceTable e), confFileName e, timestamp e), objs')"
    by (cases y; auto simp: main_fanout_def Let_def)+
  from uploadFile_cases[OF up] y have objs': "objs' = objects st @ [(Bucket e, manifestFilename e, BytesReader j)]"
    by auto
  from main_shards_None[OF ms[unfolded x]] obtain new where
    n: "totalSummedRows st = sum_list (map (shard_count e) (shards e))"
      "\<forall>sh\<in>set (shards e). shard_count e sh = of_nat (length (claimed sh))
           \<and> \<not> isl (region (s3 sh)) \<and> upload (s3 sh) = None"
      "objects st = objs @ new" "list_all (shard_object e) new"
      "map (\<lambda>ob. fst (snd ob)) new = map (\<lambda>sh. outputName e (index sh)) (shards e)"
    by auto
  show ?thesis
    using assms n eq res objs' j by auto
qed

lemma main_fanout_failure:
  assumes "fst (main_fanout e objs) = Inl x"
  shows "(\<exists>new. snd (main_fanout e objs) = objs @ new \<and> list_all (shard_object e) new)
         \<and> ((\<exists>m. x = Fatal m)
             \<or> (\<exists>sh\<in>set (shards e). exportData (json_Marshal_array e) (claimed sh) (sourceTable e)
                    (sink_err sh) (timestamp e) = Inl x))"
proof -
  obtain y st where ms: "main_shards e (shards e) \<lparr>totalSummedRows = 0, objects = objs\<rparr> = (y, st)"
    by (cases "main_shards e (shards e) \<lparr>totalSummedRows = 0, objects = objs\<rparr>")
  show ?thesis
  proof (cases y)
    case (Some z)
    with assms ms have "z = x" and "snd (main_fanout e objs) = objects st"
      by (auto simp: main_fanout_def Let_def)
    with main_shards_Some[OF ms[unfolded Some]] show ?thesis
      by auto
  next
    case None
    from main_shards_None[OF ms[unfolded None]] obtain new where
      n: "objects st = objs @ new" "list_all (shard_object e) new"
      by auto
    obtain j where j: "createManifest (Bucket e) (map (outputName e) [0..<length (shards e)]) = Inr j"
      using createManifest_Inr by blast
    obtain u objs' where up: "uploadFile (manifest_s3 e) (BytesReader j) (Bucket e)
        (manifestFilename e) (objects st) = (u, objs')"
      by (cases "uploadFile (manifest_s3 e) (BytesReader j) (Bucket e) (manifestFilename e) (objects st)")
    show ?thesis
    proof (cases "totalSummedRows st \<noteq> totalMongoRows e")
      case True
      with assms ms None n show ?thesis
        by (auto simp: main_fanout_def Let_def)
    next
      case False
      with assms ms None j up have "u = Some x" and "snd (main_fanout e objs) = objs'"
        by (cases u; auto simp: main_fanout_def Let_def)+
      with uploadFile_cases[OF up] n show ?thesis
        by auto
    qed
  qed
qed

text \<open>With an error in \<open>err\<close>, the first worker to run ends the process.\<close>

lemma main_fanout_err:
  assumes "err e \<noteq> None" and "shards e \<noteq> []"
  shows "main_fanout e objs = (Inl (Fatal ''invalid compression level: ''), objs)"
proof -
  from assms(2) obtain sh rest where "shards e = sh # rest"
    by (cases "shards e") auto
  with assms(1) show ?thesis
    by (simp add: main_fanout_def main_shard_def)
qed

text \<open>
  So every run of \<^verbatim>\<open>main\<close> ends in \<^verbatim>\<open>log.Fatal\<close> and stores no shard and no manifest:
  with no part to write, at the test of the connection when \<^verbatim>\<open>mongoConnection\<close> returned
  no error, and in the first worker when it returned one.
\<close>

lemma main_export_cases:
  "main_export e objs =
     (if shards e = [] then (Inl (Fatal ''Must specify a number of output file parts >= 1''), objs)
      else if err e = None then (Inl (Fatal ''Could not connect to mongo''), objs)
      else (Inl (Fatal ''invalid compression level: ''), objs))"
  by (auto simp: main_export_def Let_def main_fanout_err)

lemma main_export_fatal: "\<exists>m. main_export e objs = (Inl (Fatal m), objs)"
  by (simp add: main_export_cases)

lemma main_fanout_must_fail:
  assumes "sum_list (map (shard_count e) (shards e)) \<noteq> totalMongoRows e
           \<or> (\<exists>sh\<in>set (shards e). upload (s3 sh) \<noteq> None \<or> isl (region (s3 sh)))"
  shows "\<exists>x. fst (main_fanout e objs) = Inl x"
proof (cases "fst (main_fanout e objs)")
  case (Inl x)
  then show ?thesis by blast
next
  case (Inr p)
  from main_fanout_success[OF Inr]
  have "sum_list (map (shard_count e) (shards e)) = totalMongoRows e"
    and "\<forall>sh\<in>set (shards e). \<not> isl (region (s3 sh)) \<and> upload (s3 sh) = None"
    by simp_all
  with assms show ?thesis
    by auto
qed

lemma no_manifest_among_shards:
  "list_all (shard_object e) new \<Longrightarrow> list_all (\<lambda>ob. \<not> manifest_object e ob) new"
  by (induction new) (simp_all add: shard_object_not_manifest)

lemma scenario_fields [simp]:
  "time_Parse scenario_run = (\<lambda>s. Inr \<lparr>Year = 2024, Month = 1, Day = 1\<rparr>)"
  "json_Marshal_array scenario_run = (\<lambda>v. (''[]'', None))"
  "timestamp scenario_run = ''2024-01-01T00:00:00Z''"
  "Bucket scenario_run = ''b''"
  "sourceTable scenario_run = scenario_table"
  "confFileName scenario_run = ''c.yml''"
  "err scenario_run = None"
  "totalMongoRows scenario_run = 3"
  "manifest_s3 scenario_run = scenario_ok"
  "shards scenario_run =
     [\<lparr>index = 1, claimed = [[(''a'', VMap [(''b'', VInt 5), (''c'', VInt 0)])]],
        sink_err = None, s3 = scenario_ok\<rparr>,
      \<lparr>index = 0, claimed = [[(''a'', VMap [(''b'', VInt 6)])], [(''a'', VInt 1)]],
        sink_err = None, s3 = scenario_ok\<rparr>]"
  by (simp_all add: scenario_run_def)

lemma scenario_Destination [simp]: "Table.Destination scenario_table = ''students''"
  by (simp add: scenario_table_def)

lemma scenario_exportData_0:
  "exportData js [[(''a'', VMap [(''b'', VInt 6)])], [(''a'', VInt 1)]] scenario_table None
     ''2024-01-01T00:00:00Z''
   = Inr ((2, None),
          [[(''x'', VInt 6), (''y'', VBool False), (''_data_timestamp'', VStr ''2024-01-01T00:00:00Z'')],
           [(''x'', VNil), (''y'', VBool False), (''_data_timestamp'', VStr ''2024-01-01T00:00:00Z'')]])"
  by (simp add: exportData_def exportData_stages_order Flattener_def GetExistentialTransformerFn_def
      scenario_table_def FieldMap_def Fieldmap_def GetPopulateDateFn_def)

lemma scenario_shard_count:
  "shard_count scenario_run \<lparr>index = i, claimed = [[(''a'', VMap [(''b'', VInt 5), (''c'', VInt 0)])]],
        sink_err = None, s3 = r\<rparr> = 1"
  "shard_count scenario_run \<lparr>index = i, claimed = [[(''a'', VMap [(''b'', VInt 6)])], [(''a'', VInt 1)]],
        sink_err = None, s3 = r\<rparr> = 2"
  by (simp_all add: shard_count_def) (simp_all add: scenario_exportData scenario_exportData_0)

lemma scenario_sum: "sum_list (map (shard_count scenario_run) (shards scenario_run)) = 3"
  by (simp add: scenario_shard_count)

lemma main_shard_ok:
  assumes "err e = None"
    and "exportData (json_Marshal_array e) (claimed sh) (sourceTable e) (sink_err sh) (timestamp e)
           = Inr ((n, None), out)"
    and "region (s3 sh) = Inr reg" and "upload (s3 sh) = None"
  shows "main_shard e sh st
         = (None, st\<lparr>totalSummedRows := totalSummedRows st + of_nat n,
                        objects := objects st @ [(Bucket e, outputName e (index sh), Pipe out)]\<rparr>)"
  using assms by (simp add: main_shard_def uploadFile_def)

lemma scenario_main_shards:
  "fst (main_shards scenario_run (shards scenario_run) \<lparr>totalSummedRows = 0, objects = []\<rparr>) = None"
  by (simp add: main_shard_ok[where reg = "''us-east-1''"] scenario_exportData scenario_exportData_0
      scenario_ok_def)

lemma scenario_main_fanout:
  "fst (main_fanout scenario_run []) = Inr (''students'', ''c.yml'', ''2024-01-01T00:00:00Z'')"
proof (cases "fst (main_fanout scenario_run [])")
  case (Inl x)
  obtain y st where ms: "main_shards scenario_run (shards scenario_run) \<lparr>totalSummedRows = 0, objects = []\<rparr> = (y, st)"
    by (cases "main_shards scenario_run (shards scenario_run) \<lparr>totalSummedRows = 0, objects = []\<rparr>")
  with scenario_main_shards have y: "y = None" by simp
  from main_shards_None[OF ms[unfolded y]] scenario_sum
  have t: "totalSummedRows st = 3" by simp
  obtain j where j: "createManifest ''b'' (map (outputName scenario_run) [0..<length (shards scenario_run)]) = Inr j"
    using createManifest_Inr by blast
  from Inl ms y t j show ?thesis
    by (simp add: main_fanout_def Let_def uploadFile_def scenario_ok_def del: scenario_fields(10))
next
  case (Inr p)
  from main_fanout_success[OF Inr] Inr show ?thesis by simp
qed

lemma main_fanout_failure_no_manifest:
  assumes "sum_list (map (shard_count e) (shards e)) \<noteq> totalMongoRows e
           \<or> (\<exists>sh\<in>set (shards e). upload (s3 sh) \<noteq> None \<or> isl (region (s3 sh)))"
  shows "(\<exists>x. fst (main_fanout e objs) = Inl x
              \<and> ((\<exists>m. x = Fatal m)
                  \<or> (\<exists>sh\<in>set (shards e). exportData (json_Marshal_array e) (claimed sh)
                         (sourceTable e) (sink_err sh) (timestamp e) = Inl x)))
         \<and> (\<exists>new. snd (main_fanout e objs) = objs @ new \<and> list_all (shard_object e) new
                \<and> list_all (\<lambda>ob. \<not> manifest_object e ob) new)"
proof -
  from main_fanout_must_fail[OF assms] obtain x where x: "fst (main_fanout e objs) = Inl x"
    by blast
  from main_fanout_failure[OF x] x show ?thesis
    by (auto dest: no_manifest_among_shards)
qed

lemma main_export_no_manifest:
  "(\<exists>x. fst (main_export e objs) = Inl x
              \<and> ((\<exists>m. x = Fatal m)
                  \<or> (\<exists>sh\<in>set (shards e). exportData (json_Marshal_array e) (claimed sh)
                         (sourceTable e) (sink_err sh) (timestamp e) = Inl x)))
         \<and> (\<exists>new. snd (main_export e objs) = objs @ new \<and> list_all (shard_object e) new
                \<and> list_all (\<lambda>ob. \<not> manifest_object e ob) new)"
proof -
  from main_export_fatal[of e objs] obtain m where m: "main_export e objs = (Inl (Fatal m), objs)"
    by blast
  have "\<exists>new. snd (main_export e objs) = objs @ new \<and> list_all (shard_object e) new
                \<and> list_all (\<lambda>ob. \<not> manifest_object e ob) new"
    using m by (intro exI[of _ "[]"]) simp
  moreover have "\<exists>x. fst (main_export e objs) = Inl x \<and> ((\<exists>m. x = Fatal m)
                  \<or> (\<exists>sh\<in>set (shards e). exportData (json_Marshal_array e) (claimed sh)
                         (sourceTable e) (sink_err sh) (timestamp e) = Inl x))"
    using m by (intro exI[of _ "Fatal m"]) simp
  ultimately show ?thesis
    by blast
qed

lemma shard_count_totalMongoRows [simp]:
  "shard_count (e\<lparr>totalMongoRows := n\<rparr>) sh = shard_count e sh"
  by (simp add: shard_count_def)


text \<open>
  C2. When the sum of the counts of the shards differs from \<^verbatim>\<open>totalMongoRows\<close>, or when
  the upload of a shard fails (at the lookup of the region or at the transfer), the run
  ends in an error: an exit through \<^verbatim>\<open>log.Fatal\<close>, or the panic of a worker that came
  first. Whatever the run has stored by then was stored by the uploads of shards, and
  the manifest is not among it. This holds of \<^verbatim>\<open>main\<close>, and it holds of the part of
  \<^verbatim>\<open>main\<close> from the counters on by itself, whatever \<^verbatim>\<open>err\<close> holds when it is entered.
\<close>

theorem main_export_failure_withholds_manifest:
  "sum_list (map (shard_count e) (shards e)) \<noteq> totalMongoRows e
   \<or> (\<exists>sh\<in>set (shards e). upload (s3 sh) \<noteq> None \<or> isl (region (s3 sh)))
   \<Longrightarrow> ((\<exists>x. fst (main_export e objs) = Inl x
              \<and> ((\<exists>m. x = Fatal m)
                  \<or> (\<exists>sh\<in>set (shards e). exportData (json_Marshal_array e) (claimed sh)
                         (sourceTable e) (sink_err sh) (timestamp e) = Inl x)))
         \<and> (\<exists>new. snd (main_export e objs) = objs @ new \<and> list_all (shard_object e) new
                \<and> list_all (\<lambda>ob. \<not> manifest_object e ob) new))
       \<and> ((\<exists>x. fst (main_fanout e objs) = Inl x
              \<and> ((\<exists>m. x = Fatal m)
                  \<or> (\<exists>sh\<in>set (shards e). exportData (json_Marshal_array e) (claimed sh)
                         (sourceTable e) (sink_err sh) (timestamp e) = Inl x)))
         \<and> (\<exists>new. snd (main_fanout e objs) = objs @ new \<and> list_all (shard_object e) new
                \<and> list_all (\<lambda>ob. \<not> manifest_object e ob) new))"
  using main_export_no_manifest[of e objs] main_fanout_failure_no_manifest[of e objs]
  by blast

theorem main_export_failure_withholds_manifest_witness:
  "(\<exists>sh\<in>set (shards (scenario_run\<lparr>shards :=
        [\<lparr>index = 0, claimed = [[(''a'', VInt 1)]], sink_err = None,
          s3 = \<lparr>region = Inr ''us-east-1'', upload = Some ''RequestTimeout''\<rparr>\<rparr>]\<rparr>)).
      upload (s3 sh) \<noteq> None \<or> isl (region (s3 sh)))
   \<and> (\<exists>x. fst (main_export (scenario_run\<lparr>shards :=
        [\<lparr>index = 0, claimed = [[(''a'', VInt 1)]], sink_err = None,
          s3 = \<lparr>region = Inr ''us-east-1'', upload = Some ''RequestTimeout''\<rparr>\<rparr>]\<rparr>) []) = Inl x)
   \<and> sum_list (map (shard_count (scenario_run\<lparr>totalMongoRows := 2\<rparr>))
                  (shards (scenario_run\<lparr>totalMongoRows := 2\<rparr>)))
       \<noteq> totalMongoRows (scenario_run\<lparr>totalMongoRows := 2\<rparr>)
   \<and> (\<exists>x. fst (main_export (scenario_run\<lparr>totalMongoRows := 2\<rparr>) []) = Inl x)
   \<and> (\<exists>new. snd (main_export (scenario_run\<lparr>totalMongoRows := 2\<rparr>) []) = [] @ new
          \<and> list_all (\<lambda>ob. \<not> manifest_object (scenario_run\<lparr>totalMongoRows := 2\<rparr>) ob) new)
   \<and> (\<exists>x. fst (main_fanout (scenario_run\<lparr>shards :=
        [\<lparr>index = 0, claimed = [[(''a'', VInt 1)]], sink_err = None,
          s3 = \<lparr>region = Inr ''us-east-1'', upload = Some ''RequestTimeout''\<rparr>\<rparr>]\<rparr>) []) = Inl x)
   \<and> (\<exists>x. fst (main_fanout (scenario_run\<lparr>totalMongoRows := 2\<rparr>) []) = Inl x)
   \<and> (\<exists>new. snd (main_fanout (scenario_run\<lparr>totalMongoRows := 2\<rparr>) []) = [] @ new
          \<and> list_all (\<lambda>ob. \<not> manifest_object (scenario_run\<lparr>totalMongoRows := 2\<rparr>) ob) new)"
proof -
  let ?up = "scenario_run\<lparr>shards :=
        [\<lparr>index = 0, claimed = [[(''a'', VInt 1)]], sink_err = None,
          s3 = \<lparr>region = Inr ''us-east-1'', upload = Some ''RequestTimeout''\<rparr>\<rparr>]\<rparr>"
  let ?mis = "scenario_run\<lparr>totalMongoRows := 2\<rparr>"
  have h1: "\<exists>sh\<in>set (shards ?up). upload (s3 sh) \<noteq> None \<or> isl (region (s3 sh))"
    by simp
  have h2: "sum_list (map (shard_count ?mis) (shards ?mis)) \<noteq> totalMongoRows ?mis"
    by (simp add: scenario_shard_count)
  from h1 have a1: "sum_list (map (shard_count ?up) (shards ?up)) \<noteq> totalMongoRows ?up
      \<or> (\<exists>sh\<in>set (shards ?up). upload (s3 sh) \<noteq> None \<or> isl (region (s3 sh)))"
    by (rule disjI2)
  from h2 have a2: "sum_list (map (shard_count ?mis) (shards ?mis)) \<noteq> totalMongoRows ?mis
      \<or> (\<exists>sh\<in>set (shards ?mis). upload (s3 sh) \<noteq> None \<or> isl (region (s3 sh)))"
    by (rule disjI1)
  from main_export_failure_withholds_manifest[OF a1, of "[]"]
  have c1: "\<exists>x. fst (main_export ?up []) = Inl x"
    and d1: "\<exists>x. fst (main_fanout ?up []) = Inl x"
    by blast+
  from main_export_failure_withholds_manifest[OF a2, of "[]"]
  have c2: "\<exists>x. fst (main_export ?mis []) = Inl x"
    and c3: "\<exists>new. snd (main_export ?mis []) = [] @ new
          \<and> list_all (\<lambda>ob. \<not> manifest_object ?mis ob) new"
    and d2: "\<exists>x. fst (main_fanout ?mis []) = Inl x"
    and d3: "\<exists>new. snd (main_fanout ?mis []) = [] @ new
          \<and> list_all (\<lambda>ob. \<not> manifest_object ?mis ob) new"
    by blast+
  from h1 h2 c1 c2 c3 d1 d2 d3 show ?thesis
    by blast
qed

lemma scenario_manifestFilename:
  "manifestFilename scenario_run
   = ''mongo/students/_data_timestamp_year=2024/_data_timestamp_month=01/_data_timestamp_day=01/mongo_students_2024-01-01T00:00:00Z.manifest''"
  by (simp add: manifestFilename_def formatFilename_def Sprintf_02d_2024 Sprintf_02d_1)

lemma scenario_outputName:
  "outputName scenario_run 0
   = ''mongo/students/_data_timestamp_year=2024/_data_timestamp_month=01/_data_timestamp_day=01/mongo_students_2024-01-01T00:00:00Z_0.json.gz''"
  "outputName scenario_run (Suc 0)
   = ''mongo/students/_data_timestamp_year=2024/_data_timestamp_month=01/_data_timestamp_day=01/mongo_students_2024-01-01T00:00:00Z_1.json.gz''"
  using Itoa_1 by (simp_all add: outputName_def formatFilename_def Sprintf_02d_2024 Sprintf_02d_1 Itoa_0)

lemma createManifest_main:
  assumes "0 < n"
  shows "createManifest (Bucket e) (map (outputName e) [0..<n])
     = Inr (JObj [(''entries'',
                   JArr (map (\<lambda>i. JObj [(''mandatory'', JBool True),
                                          (''url'', JStr (ToValidUTF8 (''s3://'' @ Bucket e @ ''/'' @ outputName e i)))])
                          [0..<n]))])"
proof -
  from assms have "map (outputName e) [0..<n] \<noteq> []"
    by simp
  from createManifest_nonempty[OF this, of "Bucket e"] show ?thesis
    by (simp add: comp_def)
qed

lemma scenario_urls_valid:
  "ToValidUTF8 ''s3://b/mongo/students/_data_timestamp_year=2024/_data_timestamp_month=01/_data_timestamp_day=01/mongo_students_2024-01-01T00:00:00Z_0.json.gz''
   = ''s3://b/mongo/students/_data_timestamp_year=2024/_data_timestamp_month=01/_data_timestamp_day=01/mongo_students_2024-01-01T00:00:00Z_0.json.gz''"
  "ToValidUTF8 ''s3://b/mongo/students/_data_timestamp_year=2024/_data_timestamp_month=01/_data_timestamp_day=01/mongo_students_2024-01-01T00:00:00Z_1.json.gz''
   = ''s3://b/mongo/students/_data_timestamp_year=2024/_data_timestamp_month=01/_data_timestamp_day=01/mongo_students_2024-01-01T00:00:00Z_1.json.gz''"
  by (rule ToValidUTF8_valid, rule ValidString_ascii, simp add: in_range_def)+

text \<open>
  C5. For every list of file names that is not empty, \<^verbatim>\<open>createManifest\<close> returns a body
  \<^verbatim>\<open>{"entries":[{"mandatory":true,"url":...}, ...]}\<close> with one entry for each file name,
  \<^verbatim>\<open>mandatory\<close> true in each, in the order of the list; the url of an entry is what
  \<^verbatim>\<open>encoding/json\<close> writes for \<^verbatim>\<open>s3://<bucket>/<filename>\<close>. The body is the body of the
  spec exactly when every such url is UTF-8, and a string of ASCII characters is UTF-8.
  For the names \<^verbatim>\<open>main\<close> builds, the entries are in the order of the indices of the
  shards. The path of the manifest is the path of the shards with no index and the
  extension \<^verbatim>\<open>.manifest\<close>: it ends with \<^verbatim>\<open>/mongo_<dest>_<timestamp>.manifest\<close>, behind
  the directories of the table and of the date of the time stamp.
\<close>

theorem createManifest_entries:
  "(dataFilenames \<noteq> [] \<longrightarrow>
      createManifest bucket dataFilenames
        = Inr (JObj [(''entries'',
                      JArr (map (\<lambda>fn. JObj [(''mandatory'', JBool True),
                                              (''url'', JStr (ToValidUTF8 (''s3://'' @ bucket @ ''/'' @ fn)))])
                             dataFilenames))])
      \<and> (createManifest bucket dataFilenames = Inr (spec_manifest bucket dataFilenames)
           \<longleftrightarrow> (\<forall>fn\<in>set dataFilenames. ValidString (''s3://'' @ bucket @ ''/'' @ fn))))
   \<and> (list_all (\<lambda>c. in_range c 0 0x7F) s \<longrightarrow> ValidString s)
   \<and> (0 < n \<longrightarrow>
        createManifest (Bucket e) (map (outputName e) [0..<n])
          = Inr (JObj [(''entries'',
                        JArr (map (\<lambda>i. JObj [(''mandatory'', JBool True),
                                               (''url'', JStr (ToValidUTF8 (''s3://'' @ Bucket e @ ''/'' @ outputName e i)))])
                               [0..<n]))]))
   \<and> (\<forall>t. time_Parse e (timestamp e) = Inr t \<longrightarrow>
         manifestFilename e =
           ''mongo/'' @ Table.Destination (sourceTable e)
           @ ''/_data_timestamp_year='' @ Sprintf_02d (Year t)
           @ ''/_data_timestamp_month='' @ Sprintf_02d (Month t)
           @ ''/_data_timestamp_day='' @ Sprintf_02d (Day t)
           @ ''/mongo_'' @ Table.Destination (sourceTable e) @ ''_'' @ timestamp e @ ''.manifest'')
   \<and> (\<exists>dir. manifestFilename e
         = dir @ ''/mongo_'' @ Table.Destination (sourceTable e) @ ''_'' @ timestamp e @ ''.manifest'')"
proof (intro conjI allI impI)
  assume "dataFilenames \<noteq> []"
  then show "createManifest bucket dataFilenames
        = Inr (JObj [(''entries'',
                      JArr (map (\<lambda>fn. JObj [(''mandatory'', JBool True),
                                              (''url'', JStr (ToValidUTF8 (''s3://'' @ bucket @ ''/'' @ fn)))])
                             dataFilenames))])"
    by (rule createManifest_nonempty)
next
  assume "dataFilenames \<noteq> []"
  then show "createManifest bucket dataFilenames = Inr (spec_manifest bucket dataFilenames)
           \<longleftrightarrow> (\<forall>fn\<in>set dataFilenames. ValidString (''s3://'' @ bucket @ ''/'' @ fn))"
    by (rule createManifest_spec)
next
  assume "list_all (\<lambda>c. in_range c 0 0x7F) s"
  then show "ValidString s"
    by (rule ValidString_ascii)
next
  assume "0 < n"
  then show "createManifest (Bucket e) (map (outputName e) [0..<n])
          = Inr (JObj [(''entries'',
                        JArr (map (\<lambda>i. JObj [(''mandatory'', JBool True),
                                               (''url'', JStr (ToValidUTF8 (''s3://'' @ Bucket e @ ''/'' @ outputName e i)))])
                               [0..<n]))])"
    by (rule createManifest_main)
next
  fix t assume "time_Parse e (timestamp e) = Inr t"
  then show "manifestFilename e =
           ''mongo/'' @ Table.Destination (sourceTable e)
           @ ''/_data_timestamp_year='' @ Sprintf_02d (Year t)
           @ ''/_data_timestamp_month='' @ Sprintf_02d (Month t)
           @ ''/_data_timestamp_day='' @ Sprintf_02d (Day t)
           @ ''/mongo_'' @ Table.Destination (sourceTable e) @ ''_'' @ timestamp e @ ''.manifest''"
    by (rule manifestFilename_parsed)
next
  show "\<exists>dir. manifestFilename e
         = dir @ ''/mongo_'' @ Table.Destination (sourceTable e) @ ''_'' @ timestamp e @ ''.manifest''"
    by (rule manifestFilename_name)
qed

theorem createManifest_entries_witness:
  "[''f0'', ''f1''] \<noteq> []
   \<and> list_all (\<lambda>c. in_range c 0 0x7F) ''s3://b/f0''
   \<and> list_all (\<lambda>c. in_range c 0 0x7F) ''s3://b/f1''
   \<and> ValidString ''s3://b/f0'' \<and> ValidString ''s3://b/f1''
   \<and> createManifest ''b'' [''f0'', ''f1'']
       = Inr (JObj [(''entries'',
                     JArr [JObj [(''mandatory'', JBool True), (''url'', JStr ''s3://b/f0'')],
                           JObj [(''mandatory'', JBool True), (''url'', JStr ''s3://b/f1'')]])])
   \<and> (0::nat) < 2
   \<and> createManifest (Bucket scenario_run) (map (outputName scenario_run) [0..<2])
       = Inr (JObj [(''entries'',
             JArr [JObj [(''mandatory'', JBool True),
                         (''url'', JStr ''s3://b/mongo/students/_data_timestamp_year=2024/_data_timestamp_month=01/_data_timestamp_day=01/mongo_students_2024-01-01T00:00:00Z_0.json.gz'')],
                   JObj [(''mandatory'', JBool True),
                         (''url'', JStr ''s3://b/mongo/students/_data_timestamp_year=2024/_data_timestamp_month=01/_data_timestamp_day=01/mongo_students_2024-01-01T00:00:00Z_1.json.gz'')]])])
   \<and> time_Parse scenario_run (timestamp scenario_run) = Inr \<lparr>Year = 2024, Month = 1, Day = 1\<rparr>
   \<and> manifestFilename scenario_run
       = ''mongo/students/_data_timestamp_year=2024/_data_timestamp_month=01/_data_timestamp_day=01/mongo_students_2024-01-01T00:00:00Z.manifest''"
proof -
  note t = createManifest_entries[where dataFilenames = "[''f0'', ''f1'']" and bucket = "''b''"
      and e = scenario_run and n = 2]
  have a0: "list_all (\<lambda>c. in_range c 0 0x7F) ''s3://b/f0''"
    and a1: "list_all (\<lambda>c. in_range c 0 0x7F) ''s3://b/f1''"
    by (simp_all add: in_range_def)
  from t[where s = "''s3://b/f0''"] a0 have v0: "ValidString ''s3://b/f0''"
    by blast
  from t[where s = "''s3://b/f1''"] a1 have v1: "ValidString ''s3://b/f1''"
    by blast
  have "\<forall>fn\<in>set [''f0'', ''f1'']. ValidString (''s3://'' @ ''b'' @ ''/'' @ fn)"
    using v0 v1 by simp
  with t[where s = "''''"] have "createManifest ''b'' [''f0'', ''f1''] = Inr (spec_manifest ''b'' [''f0'', ''f1''])"
    by blast
  then have m: "createManifest ''b'' [''f0'', ''f1'']
       = Inr (JObj [(''entries'',
                     JArr [JObj [(''mandatory'', JBool True), (''url'', JStr ''s3://b/f0'')],
                           JObj [(''mandatory'', JBool True), (''url'', JStr ''s3://b/f1'')]])])"
    by (simp add: spec_manifest_def)
  have two: "[0..<2] = [0, Suc 0]"
    by (simp add: upt_rec)
  from t[where s = "''''"] have "createManifest (Bucket scenario_run) (map (outputName scenario_run) [0..<2])
          = Inr (JObj [(''entries'',
                        JArr (map (\<lambda>i. JObj [(''mandatory'', JBool True),
                                               (''url'', JStr (ToValidUTF8 (''s3://'' @ Bucket scenario_run @ ''/'' @ outputName scenario_run i)))])
                               [0..<2]))])"
    by simp
  then have l: "createManifest (Bucket scenario_run) (map (outputName scenario_run) [0..<2])
       = Inr (JObj [(''entries'',
             JArr [JObj [(''mandatory'', JBool True),
                         (''url'', JStr ''s3://b/mongo/students/_data_timestamp_year=2024/_data_timestamp_month=01/_data_timestamp_day=01/mongo_students_2024-01-01T00:00:00Z_0.json.gz'')],
                   JObj [(''mandatory'', JBool True),
                         (''url'', JStr ''s3://b/mongo/students/_data_timestamp_year=2024/_data_timestamp_month=01/_data_timestamp_day=01/mongo_students_2024-01-01T00:00:00Z_1.json.gz'')]])])"
    unfolding two by (simp add: scenario_outputName scenario_urls_valid)
  from a0 a1 v0 v1 m l show ?thesis
    by (simp add: scenario_manifestFilename)
qed

text \<open>
  The claim C5 as it is written fails where a url is not UTF-8. With the bucket whose
  name is the byte \<^verbatim>\<open>FF\<close> and the name of the first shard of the example, the url of
  the entry holds the replacement character U+FFFD in the place of the name of the
  bucket, and is not \<^verbatim>\<open>s3://<bucket>/<filename>\<close>.
\<close>

theorem createManifest_invalid_utf8_counterexample:
  "createManifest [CHR 0xFF] [outputName scenario_run 0]
     = Inr (JObj [(''entries'',
                   JArr [JObj [(''mandatory'', JBool True),
                               (''url'', JStr (''s3://'' @ [CHR 0xEF, CHR 0xBF, CHR 0xBD]
                                   @ ''/mongo/students/_data_timestamp_year=2024/_data_timestamp_month=01/_data_timestamp_day=01/mongo_students_2024-01-01T00:00:00Z_0.json.gz''))]])])
   \<and> createManifest [CHR 0xFF] [outputName scenario_run 0]
       \<noteq> Inr (spec_manifest [CHR 0xFF] [outputName scenario_run 0])"
proof -
  let ?fn = "''/mongo/students/_data_timestamp_year=2024/_data_timestamp_month=01/_data_timestamp_day=01/mongo_students_2024-01-01T00:00:00Z_0.json.gz''"
  have fn: "ToValidUTF8 ?fn = ?fn"
    by (rule ToValidUTF8_valid, rule ValidString_ascii) (simp add: in_range_def)
  have "rune_len (CHR 0xFF # ?fn) = 0"
    by (simp add: rune_len_def in_range_def)
  then have "ToValidUTF8 (CHR 0xFF # ?fn) = [CHR 0xEF, CHR 0xBF, CHR 0xBD] @ ?fn"
    by (simp only: ToValidUTF8_invalid_Cons fn)
  moreover have "list_all (\<lambda>c. in_range c 0 0x7F) ''s3://''"
    by (simp add: in_range_def)
  ultimately have u: "ToValidUTF8 (''s3://'' @ CHR 0xFF # ?fn) = ''s3://'' @ [CHR 0xEF, CHR 0xBF, CHR 0xBD] @ ?fn"
    by (simp only: ToValidUTF8_ascii_append)
  have c: "createManifest [CHR 0xFF] [outputName scenario_run 0]
     = Inr (JObj [(''entries'',
                   JArr [JObj [(''mandatory'', JBool True),
                               (''url'', JStr (ToValidUTF8 (''s3://'' @ CHR 0xFF # ?fn)))]])])"
    by (simp add: createManifest_nonempty scenario_outputName)
  show ?thesis
    unfolding c u by (simp add: spec_manifest_def scenario_outputName)
qed

end
